theory Spec2Isabelle
  imports Main "HOL-Library.Word"
begin

unbundle bit_operations_syntax

section \<open>Solidity values\<close>

text \<open>
  The Bridge contract (Solidity 0.8.4) is embedded function by function. Fixed-size
  values are words; \<open>bytes\<close> is a list of bytes; \<open>uint256\<close> quantities are natural
  numbers on which every operation is checked, as the compiler does for this pragma:
  overflow, underflow, division by zero and an out-of-range array index abort the call
  with a panic. A call that reverts returns \<open>Inl\<close> of the reason and no state: the
  caller keeps the state it had. Gas is not modelled.
\<close>

type_synonym bytes = "8 word list"
type_synonym address = "160 word"
type_synonym bytes4 = "32 word"
type_synonym bytes8 = "64 word"
type_synonym bytes20 = "160 word"
type_synonym bytes32 = "256 word"
type_synonym uint32 = "32 word"
type_synonym uint64 = "64 word"

datatype error =
    UntrustedVault                \<comment> \<open>"Vault is not trusted"\<close>
  | ScriptHashMismatch20          \<comment> \<open>"Wrong 20-byte script hash"\<close>
  | ScriptHashMismatch32          \<comment> \<open>"Wrong 32-byte script hash"\<close>
  | UnsupportedScriptHashLength   \<comment> \<open>"Wrong script hash length"\<close>
  | DuplicateReveal               \<comment> \<open>"Deposit already revealed"\<close>
  | InvalidInputVector            \<comment> \<open>"Invalid input vector provided"\<close>
  | InvalidOutputVector           \<comment> \<open>"Invalid output vector provided"\<close>
  | InvalidMerkleProof            \<comment> \<open>"Tx merkle proof is not valid for provided header and tx hash"\<close>
  | StaleOrFutureDifficulty       \<comment> \<open>"Not at current or previous difficulty"\<close>
  | InvalidLength                 \<comment> \<open>"Invalid length of the headers chain"\<close>
  | BrokenChain                   \<comment> \<open>"Invalid headers chain"\<close>
  | InsufficientPerHeaderWork     \<comment> \<open>"Insufficient work in a header"\<close>
  | InsufficientAccumulatedWork   \<comment> \<open>"Insufficient accumulated difficulty in header chain"\<close>
  | MultiOutputSweepUnsupported   \<comment> \<open>"Sweep transaction must have a single output"\<close>
  | WalletPubKeyHashLength        \<comment> \<open>"Wallet public key hash should have 20 bytes"\<close>
  | InvalidPreviousSweepData      \<comment> \<open>"Invalid previous sweep data"\<close>
  | DepositAlreadySwept           \<comment> \<open>"Deposit already swept"\<close>
  | UnknownInputOrigin            \<comment> \<open>"Unknown input type"\<close>
  | MissingPreviousSweepInput     \<comment> \<open>"Previous sweep output not present in sweep transaction inputs"\<close>
  | PanicArithmetic               \<comment> \<open>Panic(0x11): checked arithmetic overflowed or underflowed\<close>
  | PanicDivisionByZero           \<comment> \<open>Panic(0x12)\<close>
  | PanicIndexOutOfBounds         \<comment> \<open>Panic(0x32)\<close>
  | LibraryRevert                 \<comment> \<open>a revert raised inside a library call\<close>

definition bindE :: "error + 'a \<Rightarrow> ('a \<Rightarrow> error + 'b) \<Rightarrow> error + 'b" where
  "bindE m f = (case m of Inl e \<Rightarrow> Inl e | Inr x \<Rightarrow> f x)"

definition libcall :: "'a option \<Rightarrow> error + 'a" where
  "libcall r = (case r of None \<Rightarrow> Inl LibraryRevert | Some x \<Rightarrow> Inr x)"

definition require :: "bool \<Rightarrow> error \<Rightarrow> error + unit" where
  "require c e = (if c then Inr () else Inl e)"

definition checked_add :: "nat \<Rightarrow> nat \<Rightarrow> error + nat" where
  "checked_add a b = (if a + b < 2 ^ 256 then Inr (a + b) else Inl PanicArithmetic)"

definition checked_sub :: "nat \<Rightarrow> nat \<Rightarrow> error + nat" where
  "checked_sub a b = (if b \<le> a then Inr (a - b) else Inl PanicArithmetic)"

definition checked_mul :: "nat \<Rightarrow> nat \<Rightarrow> error + nat" where
  "checked_mul a b = (if a * b < 2 ^ 256 then Inr (a * b) else Inl PanicArithmetic)"

definition checked_div :: "nat \<Rightarrow> nat \<Rightarrow> error + nat" where
  "checked_div a b = (if b = 0 then Inl PanicDivisionByZero else Inr (a div b))"

text \<open>
  \<open>abi.encodePacked\<close> of a fixed-size value: its \<open>n\<close> bytes, most significant first
  (\<open>le_bytes\<close> lists them least significant first).
\<close>

fun le_bytes :: "nat \<Rightarrow> nat \<Rightarrow> bytes" where
  "le_bytes 0 u = []"
| "le_bytes (Suc n) u = of_nat (u mod 256) # le_bytes n (u div 256)"

definition be_bytes :: "nat \<Rightarrow> 'a::len word \<Rightarrow> bytes" where
  "be_bytes n w = rev (le_bytes n (unat w))"

text \<open>
  \<open>mload(add(b, 32))\<close> truncated to a \<open>bytesN\<close>: the first \<open>N\<close> bytes of the array
  \<open>b\<close>. Both uses in the contract read an array that is at least \<open>N\<close> bytes long
  whenever the libraries' results are well-formed; for a shorter array the EVM reads
  the memory that follows it, which is taken as zero here.
\<close>

definition mload_bytes :: "nat \<Rightarrow> bytes \<Rightarrow> 'a::len word" where
  "mload_bytes n b = word_rcat (take n (b @ replicate n 0))"

section \<open>The libraries the contract calls\<close>

text \<open>
  \<open>BTCUtils\<close>, \<open>BytesLib\<close> and \<open>ValidateSPV\<close> (package bitcoin-spv-sol) and the
  hash primitives are not part of the contract's source. The contract is embedded over
  an arbitrary implementation of them: a record of functions, each named as the
  contract calls it. A function that reads from a byte array can revert (a slice out
  of bounds), which is the result \<open>None\<close>. \<open>parseVarInt\<close> returns the pair
  (length of the compactSize data after its first byte, number encoded).
\<close>

record btc_lib =
  keccak256 :: "bytes \<Rightarrow> bytes32"
  hash256 :: "bytes \<Rightarrow> bytes32"
  hash160 :: "bytes \<Rightarrow> bytes"
  toBytes32 :: "bytes \<Rightarrow> bytes32 option"
  parseVarInt :: "bytes \<Rightarrow> (nat \<times> nat) option"
  validateVin :: "bytes \<Rightarrow> bool option"
  validateVout :: "bytes \<Rightarrow> bool option"
  extractOutputAtIndex :: "bytes \<Rightarrow> nat \<Rightarrow> bytes option"
  extractHash :: "bytes \<Rightarrow> bytes option"
  extractValue :: "bytes \<Rightarrow> uint64 option"
  extractInputTxIdLeAt :: "bytes \<Rightarrow> nat \<Rightarrow> bytes32 option"
  extractTxIndexLeAt :: "bytes \<Rightarrow> nat \<Rightarrow> bytes4 option"
  determineInputLengthAt :: "bytes \<Rightarrow> nat \<Rightarrow> nat option"
  reverseUint32 :: "uint32 \<Rightarrow> uint32"
  reverseUint64 :: "uint64 \<Rightarrow> uint64"
  extractMerkleRootLE :: "bytes \<Rightarrow> bytes32 option"
  prove :: "bytes32 \<Rightarrow> bytes32 \<Rightarrow> bytes \<Rightarrow> nat \<Rightarrow> bool option"
  extractTarget :: "bytes \<Rightarrow> nat option"
  calculateDifficulty :: "nat \<Rightarrow> nat option"
  validateHeaderChain :: "bytes \<Rightarrow> nat option"
  getErrBadLength :: nat
  getErrInvalidChain :: nat
  getErrLowWork :: nat

section \<open>The contract's data\<close>

record RevealInfo =
  fundingOutputIndex :: uint32
  revealDepositor :: address
  blindingFactor :: bytes8
  walletPubKeyHash :: bytes20
  refundPubKeyHash :: bytes20
  refundLocktime :: bytes4
  revealVault :: address

record DepositInfo =
  depositor :: address
  amount :: uint64
  revealedAt :: uint32
  vault :: address
  sweptAt :: uint32

record SweepInfo =
  txHash :: bytes32
  txOutputValue :: uint64

text \<open>\<open>BitcoinTx.Info\<close> and \<open>BitcoinTx.Proof\<close>, with the fields the contract reads.\<close>

record TxInfo =
  version :: bytes4
  inputVector :: bytes
  outputVector :: bytes
  locktime :: bytes4

record TxProof =
  merkleProof :: bytes
  txIndexInBlock :: nat
  bitcoinHeaders :: bytes

text \<open>
  The storage of the contract. A Solidity mapping is a total function whose value at a
  key never written is zero.
\<close>

record Bridge =
  isVaultTrusted :: "address \<Rightarrow> bool"
  deposits :: "bytes32 \<Rightarrow> DepositInfo"
  sweeps :: "bytes20 \<Rightarrow> bytes32"

text \<open>
  What a call reads from outside the contract's storage: the block's timestamp, the
  relay's two difficulties, and the immutable \<open>txProofDifficultyFactor\<close>.
\<close>

record Env =
  block_timestamp :: nat
  getCurrentEpochDifficulty :: nat
  getPrevEpochDifficulty :: nat
  txProofDifficultyFactor :: nat

definition noDeposit :: DepositInfo where
  "noDeposit = \<lparr>depositor = 0, amount = 0, revealedAt = 0, vault = 0, sweptAt = 0\<rparr>"

definition emptyBridge :: Bridge where
  "emptyBridge = \<lparr>isVaultTrusted = (\<lambda>_. False), deposits = (\<lambda>_. noDeposit), sweeps = (\<lambda>_. 0)\<rparr>"

text \<open>The event \<open>DepositRevealed\<close>.\<close>

record DepositRevealed =
  ev_fundingTxHash :: bytes32
  ev_reveal :: RevealInfo

section \<open>revealDeposit\<close>

definition expectedScript :: "RevealInfo \<Rightarrow> bytes" where
  "expectedScript reveal =
     [0x14] @ be_bytes 20 (revealDepositor reveal) @
     [0x75] @
     [0x08] @ be_bytes 8 (blindingFactor reveal) @
     [0x75] @
     [0x76] @
     [0xa9] @
     [0x14] @ be_bytes 20 (walletPubKeyHash reveal) @
     [0x87] @
     [0x63] @
     [0xac] @
     [0x67] @
     [0x76] @
     [0xa9] @
     [0x14] @ be_bytes 20 (refundPubKeyHash reveal) @
     [0x88] @
     [0x04] @ be_bytes 4 (refundLocktime reveal) @
     [0xb1] @
     [0x75] @
     [0xac] @
     [0x68]"

text \<open>The transaction hash: \<open>abi.encodePacked(version, inputVector, outputVector, locktime).hash256()\<close>.\<close>

definition txHashOf :: "btc_lib \<Rightarrow> TxInfo \<Rightarrow> bytes32" where
  "txHashOf L tx =
     hash256 L (be_bytes 4 (version tx) @ inputVector tx @ outputVector tx @ be_bytes 4 (locktime tx))"

text \<open>The key of \<open>deposits\<close>: \<open>uint256(keccak256(abi.encodePacked(txHash, outputIndex)))\<close>.\<close>

definition depositKey :: "btc_lib \<Rightarrow> bytes32 \<Rightarrow> uint32 \<Rightarrow> bytes32" where
  "depositKey L h i = keccak256 L (be_bytes 32 h @ be_bytes 4 i)"

definition checkFundingOutputHash :: "btc_lib \<Rightarrow> bytes \<Rightarrow> bytes \<Rightarrow> error + unit" where
  "checkFundingOutputHash L fundingOutputHash script =
     (if length fundingOutputHash = 20 then
        require (keccak256 L fundingOutputHash = keccak256 L (hash160 L script)) ScriptHashMismatch20
      else if length fundingOutputHash = 32 then
        bindE (libcall (toBytes32 L fundingOutputHash)) (\<lambda>h.
        require (h = hash256 L script) ScriptHashMismatch32)
      else Inl UnsupportedScriptHashLength)"

definition revealDeposit ::
  "btc_lib \<Rightarrow> Env \<Rightarrow> Bridge \<Rightarrow> TxInfo \<Rightarrow> RevealInfo \<Rightarrow> error + (Bridge \<times> DepositRevealed)" where
  "revealDeposit L E s fundingTx reveal =
     bindE (require (revealVault reveal = 0 \<or> isVaultTrusted s (revealVault reveal)) UntrustedVault) (\<lambda>_.
     bindE (libcall (extractOutputAtIndex L (outputVector fundingTx) (unat (fundingOutputIndex reveal)))) (\<lambda>fundingOutput.
     bindE (libcall (extractHash L fundingOutput)) (\<lambda>fundingOutputHash.
     bindE (checkFundingOutputHash L fundingOutputHash (expectedScript reveal)) (\<lambda>_.
     let fundingTxHash = txHashOf L fundingTx;
         key = depositKey L fundingTxHash (fundingOutputIndex reveal);
         deposit = deposits s key
     in
     bindE (require (revealedAt deposit = 0) DuplicateReveal) (\<lambda>_.
     let fundingOutputAmount = (mload_bytes 8 fundingOutput :: bytes8);
         deposit' = deposit
           \<lparr>amount := reverseUint64 L fundingOutputAmount,
            depositor := revealDepositor reveal,
            revealedAt := of_nat (block_timestamp E),
            vault := revealVault reveal\<rparr>
     in Inr (s\<lparr>deposits := (deposits s)(key := deposit')\<rparr>,
             \<lparr>ev_fundingTxHash = fundingTxHash, ev_reveal = reveal\<rparr>))))))"

section \<open>SPV proof\<close>

definition evaluateProofDifficulty :: "btc_lib \<Rightarrow> Env \<Rightarrow> bytes \<Rightarrow> error + unit" where
  "evaluateProofDifficulty L E headers =
     (let currentDiff = getCurrentEpochDifficulty E;
          previousDiff = getPrevEpochDifficulty E
      in
      bindE (libcall (extractTarget L headers)) (\<lambda>target.
      bindE (libcall (calculateDifficulty L target)) (\<lambda>firstHeaderDiff.
      bindE (if firstHeaderDiff = currentDiff then Inr currentDiff
             else if firstHeaderDiff = previousDiff then Inr previousDiff
             else Inl StaleOrFutureDifficulty) (\<lambda>requestedDiff.
      bindE (libcall (validateHeaderChain L headers)) (\<lambda>observedDiff.
      bindE (require (observedDiff \<noteq> getErrBadLength L) InvalidLength) (\<lambda>_.
      bindE (require (observedDiff \<noteq> getErrInvalidChain L) BrokenChain) (\<lambda>_.
      bindE (require (observedDiff \<noteq> getErrLowWork L) InsufficientPerHeaderWork) (\<lambda>_.
      bindE (checked_mul requestedDiff (txProofDifficultyFactor E)) (\<lambda>required.
      require (observedDiff \<ge> required) InsufficientAccumulatedWork)))))))))"

definition checkProofFromTxHash :: "btc_lib \<Rightarrow> Env \<Rightarrow> bytes32 \<Rightarrow> TxProof \<Rightarrow> error + unit" where
  "checkProofFromTxHash L E h proof =
     bindE (libcall (extractMerkleRootLE L (bitcoinHeaders proof))) (\<lambda>root.
     bindE (libcall (prove L h root (merkleProof proof) (txIndexInBlock proof))) (\<lambda>ok.
     bindE (require ok InvalidMerkleProof) (\<lambda>_.
     evaluateProofDifficulty L E (bitcoinHeaders proof))))"

definition validateSweepTxProof :: "btc_lib \<Rightarrow> Env \<Rightarrow> TxInfo \<Rightarrow> TxProof \<Rightarrow> error + bytes32" where
  "validateSweepTxProof L E sweepTx sweepProof =
     bindE (libcall (validateVin L (inputVector sweepTx))) (\<lambda>vinOk.
     bindE (require vinOk InvalidInputVector) (\<lambda>_.
     bindE (libcall (validateVout L (outputVector sweepTx))) (\<lambda>voutOk.
     bindE (require voutOk InvalidOutputVector) (\<lambda>_.
     let sweepTxHash = txHashOf L sweepTx in
     bindE (checkProofFromTxHash L E sweepTxHash sweepProof) (\<lambda>_.
     Inr sweepTxHash)))))"

section \<open>sweep\<close>

definition processSweepTxOutput :: "btc_lib \<Rightarrow> bytes \<Rightarrow> error + (bytes20 \<times> uint64)" where
  "processSweepTxOutput L sweepTxOutputVector =
     bindE (libcall (parseVarInt L sweepTxOutputVector)) (\<lambda>(_, outputsCount).
     bindE (require (outputsCount = 1) MultiOutputSweepUnsupported) (\<lambda>_.
     bindE (libcall (extractOutputAtIndex L sweepTxOutputVector 0)) (\<lambda>output.
     bindE (libcall (extractValue L output)) (\<lambda>value.
     bindE (libcall (extractHash L output)) (\<lambda>walletPubKeyHashBytes.
     bindE (require (length walletPubKeyHashBytes = 20) WalletPubKeyHashLength) (\<lambda>_.
     Inr (mload_bytes 20 walletPubKeyHashBytes, value)))))))"

definition parseTxInputAt :: "btc_lib \<Rightarrow> bytes \<Rightarrow> nat \<Rightarrow> error + (bytes32 \<times> uint32 \<times> nat)" where
  "parseTxInputAt L vin start =
     bindE (libcall (extractInputTxIdLeAt L vin start)) (\<lambda>inputTxHash.
     bindE (libcall (extractTxIndexLeAt L vin start)) (\<lambda>indexLe.
     let inputTxIndex = reverseUint32 L indexLe in
     bindE (libcall (determineInputLengthAt L vin start)) (\<lambda>inputLength.
     Inr (inputTxHash, inputTxIndex, inputLength))))"

text \<open>
  The variables of \<open>processSweepTxInputs\<close> that its loop changes: the \<open>deposits\<close>
  mapping in storage, and the locals. The two memory arrays have the length they were
  allocated with; a write at an index beyond it panics.
\<close>

record InputsLoop =
  loopDeposits :: "bytes32 \<Rightarrow> DepositInfo"
  inputStartingIndex :: nat
  previousSweepFlag :: bool
  processedDepositsCount :: nat
  inputsValue :: nat
  depositors :: "address list"
  depositedAmounts :: "nat list"

text \<open>The body of the loop for the input that starts at \<open>inputStartingIndex\<close>.\<close>

definition processSweepTxInput ::
  "btc_lib \<Rightarrow> Env \<Rightarrow> bytes \<Rightarrow> SweepInfo \<Rightarrow> InputsLoop \<Rightarrow> error + InputsLoop" where
  "processSweepTxInput L E sweepTxInputVector previousSweep ls =
     bindE (parseTxInputAt L sweepTxInputVector (inputStartingIndex ls)) (\<lambda>(inputTxHash, inputTxIndex, inputLength).
     let key = depositKey L inputTxHash inputTxIndex;
         deposit = loopDeposits ls key
     in
     bindE
       (if revealedAt deposit \<noteq> 0 then
          bindE (require (sweptAt deposit = 0) DepositAlreadySwept) (\<lambda>_.
          let deposit' = deposit\<lparr>sweptAt := of_nat (block_timestamp E)\<rparr> in
          bindE (require (processedDepositsCount ls < length (depositors ls)) PanicIndexOutOfBounds) (\<lambda>_.
          bindE (require (processedDepositsCount ls < length (depositedAmounts ls)) PanicIndexOutOfBounds) (\<lambda>_.
          bindE (checked_add (inputsValue ls) (unat (amount deposit'))) (\<lambda>newValue.
          Inr (ls\<lparr>loopDeposits := (loopDeposits ls)(key := deposit'),
                  depositors := (depositors ls)[processedDepositsCount ls := depositor deposit'],
                  depositedAmounts := (depositedAmounts ls)[processedDepositsCount ls := unat (amount deposit')],
                  inputsValue := newValue,
                  processedDepositsCount := processedDepositsCount ls + 1\<rparr>)))))
        else if \<not> previousSweepFlag ls \<and> txHash previousSweep = inputTxHash then
          bindE (checked_add (inputsValue ls) (unat (txOutputValue previousSweep))) (\<lambda>newValue.
          Inr (ls\<lparr>inputsValue := newValue, previousSweepFlag := True\<rparr>))
        else Inl UnknownInputOrigin) (\<lambda>ls'.
     bindE (checked_add (inputStartingIndex ls') inputLength) (\<lambda>next.
     Inr (ls'\<lparr>inputStartingIndex := next\<rparr>))))"

text \<open>
  The loop \<open>for (i = 0; i < inputsCount; i++)\<close>, by the number of iterations left. It
  stops early (\<open>break\<close>) when \<open>inputStartingIndex\<close> is at or beyond the end of the vector.
\<close>

fun processSweepTxInputsLoop ::
  "btc_lib \<Rightarrow> Env \<Rightarrow> bytes \<Rightarrow> SweepInfo \<Rightarrow> nat \<Rightarrow> InputsLoop \<Rightarrow> error + InputsLoop" where
  "processSweepTxInputsLoop L E sweepTxInputVector previousSweep 0 ls = Inr ls"
| "processSweepTxInputsLoop L E sweepTxInputVector previousSweep (Suc n) ls =
     (if inputStartingIndex ls \<ge> length sweepTxInputVector then Inr ls
      else bindE (processSweepTxInput L E sweepTxInputVector previousSweep ls)
             (processSweepTxInputsLoop L E sweepTxInputVector previousSweep n))"

definition processSweepTxInputs ::
  "btc_lib \<Rightarrow> Env \<Rightarrow> (bytes32 \<Rightarrow> DepositInfo) \<Rightarrow> bytes \<Rightarrow> SweepInfo \<Rightarrow>
     error + ((bytes32 \<Rightarrow> DepositInfo) \<times> nat \<times> address list \<times> nat list)" where
  "processSweepTxInputs L E deps sweepTxInputVector previousSweep =
     (let flag0 = (txHash previousSweep = 0) in
      bindE (libcall (parseVarInt L sweepTxInputVector)) (\<lambda>(inputsCompactSizeUintLength, inputsCount).
      bindE (checked_add 1 inputsCompactSizeUintLength) (\<lambda>start.
      bindE (if flag0 then Inr inputsCount else checked_sub inputsCount 1) (\<lambda>arrayLength.
      bindE (processSweepTxInputsLoop L E sweepTxInputVector previousSweep inputsCount
               \<lparr>loopDeposits = deps, inputStartingIndex = start, previousSweepFlag = flag0,
                processedDepositsCount = 0, inputsValue = 0,
                depositors = replicate arrayLength 0,
                depositedAmounts = replicate arrayLength 0\<rparr>) (\<lambda>ls.
      bindE (require (previousSweepFlag ls) MissingPreviousSweepInput) (\<lambda>_.
      Inr (loopDeposits ls, inputsValue ls, depositors ls, depositedAmounts ls)))))))"

text \<open>The loop \<open>depositedAmounts[i] -= feeShare\<close>, a checked subtraction at each index.\<close>

fun reduceByFeeShare :: "nat \<Rightarrow> nat list \<Rightarrow> error + nat list" where
  "reduceByFeeShare feeShare [] = Inr []"
| "reduceByFeeShare feeShare (a # as) =
     bindE (checked_sub a feeShare) (\<lambda>a'.
     bindE (reduceByFeeShare feeShare as) (\<lambda>as'. Inr (a' # as')))"

definition resolvePreviousSweep :: "btc_lib \<Rightarrow> bytes32 \<Rightarrow> SweepInfo \<Rightarrow> error + SweepInfo" where
  "resolvePreviousSweep L previousSweepHash previousSweep =
     (if previousSweepHash \<noteq> 0 then
        bindE (require
                 (keccak256 L (be_bytes 32 (txHash previousSweep) @ be_bytes 8 (txOutputValue previousSweep))
                    = previousSweepHash)
                 InvalidPreviousSweepData) (\<lambda>_.
        Inr previousSweep)
      else Inr \<lparr>txHash = 0, txOutputValue = 0\<rparr>)"

text \<open>
  \<open>sweep\<close> returns the new storage and the two arrays it passes to
  \<open>bank.increaseBalances\<close>: the credit instructions.
\<close>

definition sweep ::
  "btc_lib \<Rightarrow> Env \<Rightarrow> Bridge \<Rightarrow> TxInfo \<Rightarrow> TxProof \<Rightarrow> SweepInfo \<Rightarrow>
     error + (Bridge \<times> address list \<times> nat list)" where
  "sweep L E s sweepTx sweepProof previousSweep =
     bindE (validateSweepTxProof L E sweepTx sweepProof) (\<lambda>sweepTxHash.
     bindE (processSweepTxOutput L (outputVector sweepTx)) (\<lambda>(walletPubKeyHash, sweepTxOutputValue).
     bindE (resolvePreviousSweep L (sweeps s walletPubKeyHash) previousSweep) (\<lambda>resolvedPreviousSweep.
     bindE (processSweepTxInputs L E (deposits s) (inputVector sweepTx) resolvedPreviousSweep)
       (\<lambda>(deposits', sweepTxInputsValue, ds, amounts).
     bindE (checked_sub sweepTxInputsValue (unat sweepTxOutputValue)) (\<lambda>fee.
     bindE (checked_div fee (length amounts)) (\<lambda>feeShare.
     bindE (reduceByFeeShare feeShare amounts) (\<lambda>amounts'.
     Inr (s\<lparr>deposits := deposits',
            sweeps := (sweeps s)(walletPubKeyHash :=
              keccak256 L (be_bytes 32 sweepTxHash @ be_bytes 8 sweepTxOutputValue))\<rparr>,
          ds, amounts'))))))))"

section \<open>Specification vocabulary for sweeps\<close>

text \<open>
  The outpoints that the loop of \<open>processSweepTxInputs\<close> visits in a vector: it starts
  at \<open>start\<close>, parses at most \<open>n\<close> inputs, and stops where the loop stops (at the end of
  the vector) or where parsing reverts.
\<close>

fun inputOutpointsFrom :: "btc_lib \<Rightarrow> bytes \<Rightarrow> nat \<Rightarrow> nat \<Rightarrow> (bytes32 \<times> uint32) list" where
  "inputOutpointsFrom L vin start 0 = []"
| "inputOutpointsFrom L vin start (Suc n) =
     (if start \<ge> length vin then []
      else case parseTxInputAt L vin start of
             Inl _ \<Rightarrow> []
           | Inr (h, i, len) \<Rightarrow> (h, i) # inputOutpointsFrom L vin (start + len) n)"

definition inputOutpoints :: "btc_lib \<Rightarrow> bytes \<Rightarrow> (bytes32 \<times> uint32) list" where
  "inputOutpoints L vin =
     (case parseVarInt L vin of
        None \<Rightarrow> []
      | Some (len, n) \<Rightarrow> inputOutpointsFrom L vin (1 + len) n)"

text \<open>
  What \<open>validateVin\<close> promises about a vector it accepts: all the inputs that the
  compactSize prefix announces are in the vector. (The contract relies on it and does
  not check it again.)
\<close>

definition vinComplete :: "btc_lib \<Rightarrow> bytes \<Rightarrow> bool" where
  "vinComplete L vin =
     (case parseVarInt L vin of
        None \<Rightarrow> False
      | Some (len, n) \<Rightarrow> length (inputOutpointsFrom L vin (1 + len) n) = n)"

text \<open>The keys of the revealed deposits among the inputs of a vector, in input order.\<close>

definition isRevealed :: "(bytes32 \<Rightarrow> DepositInfo) \<Rightarrow> bytes32 \<Rightarrow> bool" where
  "isRevealed deps k = (revealedAt (deps k) \<noteq> 0)"

definition outpointKey :: "btc_lib \<Rightarrow> bytes32 \<times> uint32 \<Rightarrow> bytes32" where
  "outpointKey L op = depositKey L (fst op) (snd op)"

definition inputKeys :: "btc_lib \<Rightarrow> bytes \<Rightarrow> bytes32 list" where
  "inputKeys L vin = map (outpointKey L) (inputOutpoints L vin)"

definition sweptKeys :: "btc_lib \<Rightarrow> (bytes32 \<Rightarrow> DepositInfo) \<Rightarrow> bytes \<Rightarrow> bytes32 list" where
  "sweptKeys L deps vin = filter (isRevealed deps) (inputKeys L vin)"

text \<open>The inputs of a vector that are not revealed deposits.\<close>

definition otherInputs ::
  "btc_lib \<Rightarrow> (bytes32 \<Rightarrow> DepositInfo) \<Rightarrow> bytes \<Rightarrow> (bytes32 \<times> uint32) list" where
  "otherInputs L deps vin =
     filter (\<lambda>op. \<not> isRevealed deps (outpointKey L op)) (inputOutpoints L vin)"

text \<open>The same two lists for the inputs from \<open>start\<close> on, as the loop sees them.\<close>

definition sweptKeysFrom ::
  "btc_lib \<Rightarrow> (bytes32 \<Rightarrow> DepositInfo) \<Rightarrow> bytes \<Rightarrow> nat \<Rightarrow> nat \<Rightarrow> bytes32 list" where
  "sweptKeysFrom L deps vin start n =
     filter (isRevealed deps) (map (outpointKey L) (inputOutpointsFrom L vin start n))"

definition otherInputsFrom ::
  "btc_lib \<Rightarrow> (bytes32 \<Rightarrow> DepositInfo) \<Rightarrow> bytes \<Rightarrow> nat \<Rightarrow> nat \<Rightarrow> (bytes32 \<times> uint32) list" where
  "otherInputsFrom L deps vin start n =
     filter (\<lambda>op. \<not> isRevealed deps (outpointKey L op)) (inputOutpointsFrom L vin start n)"

text \<open>The result of a call without the storage: the error, or the credit instructions.\<close>

definition creditsOf ::
  "error + (Bridge \<times> address list \<times> nat list) \<Rightarrow> error + (address list \<times> nat list)" where
  "creditsOf r = (case r of Inl e \<Rightarrow> Inl e | Inr (s, ds, amounts) \<Rightarrow> Inr (ds, amounts))"

text \<open>The sweep pointer that \<open>sweep\<close> stores: \<open>keccak256(abi.encodePacked(txHash, txOutputValue))\<close>.\<close>

definition sweepPointer :: "btc_lib \<Rightarrow> bytes32 \<Rightarrow> uint64 \<Rightarrow> bytes32" where
  "sweepPointer L h v = keccak256 L (be_bytes 32 h @ be_bytes 8 v)"

section \<open>Sequences of calls\<close>

datatype call =
    Reveal Env TxInfo RevealInfo
  | Sweep Env TxInfo TxProof SweepInfo

text \<open>A call that reverts leaves the storage as it was.\<close>

fun step :: "btc_lib \<Rightarrow> Bridge \<Rightarrow> call \<Rightarrow> Bridge" where
  "step L s (Reveal E fundingTx reveal) =
     (case revealDeposit L E s fundingTx reveal of Inl _ \<Rightarrow> s | Inr (s', _) \<Rightarrow> s')"
| "step L s (Sweep E sweepTx sweepProof previousSweep) =
     (case sweep L E s sweepTx sweepProof previousSweep of Inl _ \<Rightarrow> s | Inr (s', _) \<Rightarrow> s')"

definition run :: "btc_lib \<Rightarrow> Bridge \<Rightarrow> call list \<Rightarrow> Bridge" where
  "run L s cs = foldl (step L) s cs"

text \<open>The deposit keys that a call credits: those of a sweep that succeeds.\<close>

fun creditedBy :: "btc_lib \<Rightarrow> Bridge \<Rightarrow> call \<Rightarrow> bytes32 list" where
  "creditedBy L s (Reveal E fundingTx reveal) = []"
| "creditedBy L s (Sweep E sweepTx sweepProof previousSweep) =
     (case sweep L E s sweepTx sweepProof previousSweep of
        Inl _ \<Rightarrow> []
      | Inr _ \<Rightarrow> sweptKeys L (deposits s) (inputVector sweepTx))"

fun credited :: "btc_lib \<Rightarrow> Bridge \<Rightarrow> call list \<Rightarrow> bytes32 list" where
  "credited L s [] = []"
| "credited L s (c # cs) = creditedBy L s c @ credited L (step L s c) cs"

text \<open>The timestamp a call would store, \<open>uint32(block.timestamp)\<close>.\<close>

fun callTime :: "call \<Rightarrow> uint32" where
  "callTime (Reveal E _ _) = of_nat (block_timestamp E)"
| "callTime (Sweep E _ _ _) = of_nat (block_timestamp E)"

section \<open>A model of the libraries\<close>

text \<open>
  Modelled from the spec: the Bitcoin primitives (spec 4.1) and the SPV verifier's
  parts (spec 4.2) that the contract takes from the libraries, whose code is not in
  the repository's sources. Parsing follows the Bitcoin wire format: compactSize
  prefixes, 36-byte outpoints, 8-byte little-endian values, 80-byte headers. The three
  hash functions are stand-ins that can be computed here (the byte string read as a
  number, or the sum of its bytes); no theorem below relies on a property of them. The
  instance \<open>ref_lib\<close> is used for concrete runs only; every general theorem is stated
  for an arbitrary library.
\<close>

definition le_nat :: "bytes \<Rightarrow> nat" where
  "le_nat bs = foldr (\<lambda>b a. unat b + 256 * a) bs 0"

definition be_nat :: "bytes \<Rightarrow> nat" where
  "be_nat bs = foldl (\<lambda>a b. 256 * a + unat b) 0 bs"

text \<open>\<open>slice\<close> reverts when it would read beyond the array.\<close>

definition slice :: "bytes \<Rightarrow> nat \<Rightarrow> nat \<Rightarrow> bytes option" where
  "slice b start len = (if start + len \<le> length b then Some (take len (drop start b)) else None)"

definition ERR_BAD_ARG :: nat where
  "ERR_BAD_ARG = 2 ^ 256 - 1"

definition ref_keccak256 :: "bytes \<Rightarrow> bytes32" where
  "ref_keccak256 bs = of_nat (be_nat bs mod 2 ^ 255) + 1"

definition ref_hash256 :: "bytes \<Rightarrow> bytes32" where
  "ref_hash256 bs = word_rcat (rev (be_bytes 32 (of_nat (sum_list (map unat bs) mod 2 ^ 256) :: bytes32)))"

definition ref_hash160 :: "bytes \<Rightarrow> bytes" where
  "ref_hash160 bs = be_bytes 20 (of_nat (be_nat bs mod 2 ^ 160) :: bytes20)"

definition ref_toBytes32 :: "bytes \<Rightarrow> bytes32 option" where
  "ref_toBytes32 b = (if b = [] then Some 0 else Some (mload_bytes 32 b))"

definition determineVarIntDataLength :: "8 word \<Rightarrow> nat" where
  "determineVarIntDataLength flag =
     (if flag = 0xff then 8 else if flag = 0xfe then 4 else if flag = 0xfd then 2 else 0)"

definition parseVarIntAt :: "bytes \<Rightarrow> nat \<Rightarrow> (nat \<times> nat) option" where
  "parseVarIntAt b at =
     (if at \<ge> length b then None
      else let dataLen = determineVarIntDataLength (b ! at) in
        if dataLen = 0 then Some (0, unat (b ! at))
        else if length b < 1 + dataLen + at then Some (ERR_BAD_ARG, 0)
        else Some (dataLen, le_nat (take dataLen (drop (1 + at) b))))"

definition ref_parseVarInt :: "bytes \<Rightarrow> (nat \<times> nat) option" where
  "ref_parseVarInt b = parseVarIntAt b 0"

definition ref_determineInputLengthAt :: "bytes \<Rightarrow> nat \<Rightarrow> nat option" where
  "ref_determineInputLengthAt vin at =
     (if length vin < 37 + at then Some ERR_BAD_ARG
      else case parseVarIntAt vin (at + 36) of
             None \<Rightarrow> None
           | Some (dataLen, scriptSigLen) \<Rightarrow>
               if dataLen = ERR_BAD_ARG then Some ERR_BAD_ARG
               else Some (36 + 1 + dataLen + scriptSigLen + 4))"

definition determineOutputLengthAt :: "bytes \<Rightarrow> nat \<Rightarrow> nat option" where
  "determineOutputLengthAt vout at =
     (if length vout < 9 + at then Some ERR_BAD_ARG
      else case parseVarIntAt vout (8 + at) of
             None \<Rightarrow> None
           | Some (dataLen, scriptLen) \<Rightarrow>
               if dataLen = ERR_BAD_ARG then Some ERR_BAD_ARG
               else Some (8 + 1 + dataLen + scriptLen))"

text \<open>
  \<open>validateVin\<close> and \<open>validateVout\<close>: the prefix announces at least one item, every
  item's length can be determined, and the items end exactly at the end of the vector.
\<close>

fun validateItems :: "(bytes \<Rightarrow> nat \<Rightarrow> nat option) \<Rightarrow> bytes \<Rightarrow> nat \<Rightarrow> nat \<Rightarrow> bool option" where
  "validateItems lengthAt v offset 0 = Some (offset = length v)"
| "validateItems lengthAt v offset (Suc n) =
     (if offset \<ge> length v then Some False
      else case lengthAt v offset of
             None \<Rightarrow> None
           | Some nextLen \<Rightarrow>
               if nextLen = ERR_BAD_ARG then Some False
               else validateItems lengthAt v (offset + nextLen) n)"

definition validateVector :: "(bytes \<Rightarrow> nat \<Rightarrow> nat option) \<Rightarrow> bytes \<Rightarrow> bool option" where
  "validateVector lengthAt v =
     (case ref_parseVarInt v of
        None \<Rightarrow> None
      | Some (dataLen, n) \<Rightarrow>
          if n = 0 \<or> dataLen = ERR_BAD_ARG then Some False
          else validateItems lengthAt v (1 + dataLen) n)"

definition ref_validateVin :: "bytes \<Rightarrow> bool option" where
  "ref_validateVin = validateVector ref_determineInputLengthAt"

definition ref_validateVout :: "bytes \<Rightarrow> bool option" where
  "ref_validateVout = validateVector determineOutputLengthAt"

fun outputOffset :: "bytes \<Rightarrow> nat \<Rightarrow> nat \<Rightarrow> nat option" where
  "outputOffset vout offset 0 = Some offset"
| "outputOffset vout offset (Suc i) =
     (case determineOutputLengthAt vout offset of
        None \<Rightarrow> None
      | Some len \<Rightarrow> if len = ERR_BAD_ARG then None else outputOffset vout (offset + len) i)"

definition ref_extractOutputAtIndex :: "bytes \<Rightarrow> nat \<Rightarrow> bytes option" where
  "ref_extractOutputAtIndex vout index =
     (case ref_parseVarInt vout of
        None \<Rightarrow> None
      | Some (dataLen, nOuts) \<Rightarrow>
          if dataLen = ERR_BAD_ARG \<or> \<not> index < nOuts then None
          else (case outputOffset vout (1 + dataLen) index of
                  None \<Rightarrow> None
                | Some offset \<Rightarrow>
                    (case determineOutputLengthAt vout offset of
                       None \<Rightarrow> None
                     | Some len \<Rightarrow> if len = ERR_BAD_ARG then None else slice vout offset len)))"

text \<open>
  \<open>extractHash\<close>: the hash that the output's script commits to. It is 20 or 32 bytes
  for a witness program (P2WPKH, P2WSH), 20 bytes for P2PKH and for P2SH, and empty for
  anything else. (The contract's \<open>revealDeposit\<close> depends on the 20 bytes of a P2SH
  output, as its comments say.)
\<close>

definition ref_extractHash :: "bytes \<Rightarrow> bytes option" where
  "ref_extractHash output =
     (if length output \<le> 9 then None
      else let scriptLen = unat (output ! 8) in
        if (scriptLen + 9) mod 256 \<noteq> length output then Some []
        else if output ! 9 = 0 then
          (if scriptLen < 2 then Some []
           else if length output \<le> 10 then None
           else let payloadLen = unat (output ! 10) in
             if payloadLen \<noteq> scriptLen - 2 \<or> (payloadLen \<noteq> 0x20 \<and> payloadLen \<noteq> 0x14) then Some []
             else slice output 11 payloadLen)
        else if take 3 (drop 8 output) = [0x19, 0x76, 0xa9] then
          (if output ! 11 \<noteq> 0x14 \<or> drop (length output - 2) output \<noteq> [0x88, 0xac] then Some []
           else slice output 12 20)
        else if take 3 (drop 8 output) = [0x17, 0xa9, 0x14] then
          (if output ! (length output - 1) \<noteq> 0x87 then Some []
           else slice output 11 20)
        else Some [])"

definition ref_reverseUint32 :: "uint32 \<Rightarrow> uint32" where
  "ref_reverseUint32 w = word_rcat (rev (be_bytes 4 w))"

definition ref_reverseUint64 :: "uint64 \<Rightarrow> uint64" where
  "ref_reverseUint64 w = word_rcat (rev (be_bytes 8 w))"

definition reverseUint256 :: "bytes32 \<Rightarrow> bytes32" where
  "reverseUint256 w = word_rcat (rev (be_bytes 32 w))"

definition ref_extractValue :: "bytes \<Rightarrow> uint64 option" where
  "ref_extractValue output = map_option (\<lambda>b. ref_reverseUint64 (word_rcat b)) (slice output 0 8)"

definition ref_extractInputTxIdLeAt :: "bytes \<Rightarrow> nat \<Rightarrow> bytes32 option" where
  "ref_extractInputTxIdLeAt vin at = map_option word_rcat (slice vin at 32)"

definition ref_extractTxIndexLeAt :: "bytes \<Rightarrow> nat \<Rightarrow> bytes4 option" where
  "ref_extractTxIndexLeAt vin at = map_option word_rcat (slice vin (32 + at) 4)"

subsection \<open>SPV\<close>

definition ERR_BAD_LENGTH :: nat where
  "ERR_BAD_LENGTH = 2 ^ 256 - 1"

definition ERR_INVALID_CHAIN :: nat where
  "ERR_INVALID_CHAIN = 2 ^ 256 - 2"

definition ERR_LOW_WORK :: nat where
  "ERR_LOW_WORK = 2 ^ 256 - 3"

definition DIFF1_TARGET :: nat where
  "DIFF1_TARGET = 0xffff * 256 ^ 26"

definition ref_extractMerkleRootLE :: "bytes \<Rightarrow> bytes32 option" where
  "ref_extractMerkleRootLE header = map_option word_rcat (slice header 36 32)"

text \<open>The target of the header at \<open>at\<close>: three bytes of mantissa and one of exponent.\<close>

definition extractTargetAt :: "bytes \<Rightarrow> nat \<Rightarrow> nat option" where
  "extractTargetAt header at =
     (case slice header (72 + at) 4 of
        None \<Rightarrow> None
      | Some bits \<Rightarrow>
          let mantissa = le_nat (take 3 bits); e = unat (bits ! 3) in
          if e < 3 \<or> mantissa * 256 ^ (e - 3) \<ge> 2 ^ 256 then None
          else Some (mantissa * 256 ^ (e - 3)))"

definition ref_extractTarget :: "bytes \<Rightarrow> nat option" where
  "ref_extractTarget header = extractTargetAt header 0"

definition ref_calculateDifficulty :: "nat \<Rightarrow> nat option" where
  "ref_calculateDifficulty target = (if target = 0 then None else Some (DIFF1_TARGET div target))"

fun chunks32 :: "nat \<Rightarrow> bytes \<Rightarrow> bytes list" where
  "chunks32 0 b = []"
| "chunks32 (Suc n) b = take 32 b # chunks32 n (drop 32 b)"

fun merkleSteps :: "bytes \<Rightarrow> nat \<Rightarrow> bytes list \<Rightarrow> bytes" where
  "merkleSteps current idx [] = current"
| "merkleSteps current idx (node # nodes) =
     merkleSteps
       (be_bytes 32 (if idx mod 2 = 1 then ref_hash256 (node @ current) else ref_hash256 (current @ node)))
       (idx div 2) nodes"

definition ref_prove :: "bytes32 \<Rightarrow> bytes32 \<Rightarrow> bytes \<Rightarrow> nat \<Rightarrow> bool option" where
  "ref_prove txid merkleRoot intermediateNodes index =
     (if txid = merkleRoot \<and> index = 0 \<and> intermediateNodes = [] then Some True
      else if length intermediateNodes mod 32 \<noteq> 0 then Some False
      else if intermediateNodes = [] then Some False
      else Some (merkleSteps (be_bytes 32 txid) index
                   (chunks32 (length intermediateNodes div 32) intermediateNodes)
                 = be_bytes 32 merkleRoot))"

text \<open>
  \<open>validateHeaderChain\<close>: every header names the hash of the one before it and its
  own hash, read as a little-endian number, does not exceed its target; the result is
  the sum of the headers' difficulties, or one of three error codes.
\<close>

fun headerChainFrom :: "bytes \<Rightarrow> nat \<Rightarrow> bytes32 \<Rightarrow> nat \<Rightarrow> nat \<Rightarrow> nat option" where
  "headerChainFrom headers start digest totalDifficulty 0 = Some totalDifficulty"
| "headerChainFrom headers start digest totalDifficulty (Suc n) =
     (if start \<noteq> 0 \<and> slice headers (start + 4) 32 \<noteq> Some (be_bytes 32 digest) then Some ERR_INVALID_CHAIN
      else case extractTargetAt headers start of
             None \<Rightarrow> None
           | Some target \<Rightarrow>
               let digest' = ref_hash256 (take 80 (drop start headers)) in
               if unat (reverseUint256 digest') > target then Some ERR_LOW_WORK
               else (case ref_calculateDifficulty target of
                       None \<Rightarrow> None
                     | Some d \<Rightarrow> headerChainFrom headers (start + 80) digest' (totalDifficulty + d) n))"

definition ref_validateHeaderChain :: "bytes \<Rightarrow> nat option" where
  "ref_validateHeaderChain headers =
     (if length headers mod 80 \<noteq> 0 then Some ERR_BAD_LENGTH
      else headerChainFrom headers 0 0 0 (length headers div 80))"

definition ref_lib :: btc_lib where
  "ref_lib = \<lparr>
     keccak256 = ref_keccak256,
     hash256 = ref_hash256,
     hash160 = ref_hash160,
     toBytes32 = ref_toBytes32,
     parseVarInt = ref_parseVarInt,
     validateVin = ref_validateVin,
     validateVout = ref_validateVout,
     extractOutputAtIndex = ref_extractOutputAtIndex,
     extractHash = ref_extractHash,
     extractValue = ref_extractValue,
     extractInputTxIdLeAt = ref_extractInputTxIdLeAt,
     extractTxIndexLeAt = ref_extractTxIndexLeAt,
     determineInputLengthAt = ref_determineInputLengthAt,
     reverseUint32 = ref_reverseUint32,
     reverseUint64 = ref_reverseUint64,
     extractMerkleRootLE = ref_extractMerkleRootLE,
     prove = ref_prove,
     extractTarget = ref_extractTarget,
     calculateDifficulty = ref_calculateDifficulty,
     validateHeaderChain = ref_validateHeaderChain,
     getErrBadLength = ERR_BAD_LENGTH,
     getErrInvalidChain = ERR_INVALID_CHAIN,
     getErrLowWork = ERR_LOW_WORK\<rparr>"

section \<open>Concrete transactions and states\<close>

text \<open>
  Transactions in wire format for the concrete runs: an input with an empty
  \<open>scriptSig\<close>, outputs of three script kinds, and an SPV proof of one header
  (difficulty 1) for a block whose only transaction is the proven one.
\<close>

definition mkInput :: "bytes32 \<Rightarrow> uint32 \<Rightarrow> bytes" where
  "mkInput h i = be_bytes 32 h @ rev (be_bytes 4 i) @ [0] @ [0xff, 0xff, 0xff, 0xff]"

definition p2wpkhOutput :: "uint64 \<Rightarrow> bytes20 \<Rightarrow> bytes" where
  "p2wpkhOutput v h = rev (be_bytes 8 v) @ [0x16, 0x00, 0x14] @ be_bytes 20 h"

definition p2shOutput :: "uint64 \<Rightarrow> bytes20 \<Rightarrow> bytes" where
  "p2shOutput v h = rev (be_bytes 8 v) @ [0x17, 0xa9, 0x14] @ be_bytes 20 h @ [0x87]"

definition mkTx :: "bytes \<Rightarrow> bytes \<Rightarrow> TxInfo" where
  "mkTx vin vout = \<lparr>version = 0x01000000, inputVector = vin, outputVector = vout, locktime = 0\<rparr>"

definition mkHeader :: "bytes32 \<Rightarrow> bytes" where
  "mkHeader root =
     [1, 0, 0, 0] @ be_bytes 32 (0 :: bytes32) @ be_bytes 32 root @ [0, 0, 0, 0] @
     [0xff, 0xff, 0x00, 0x1d] @ [0, 0, 0, 0]"

definition mkProof :: "TxInfo \<Rightarrow> TxProof" where
  "mkProof tx = \<lparr>merkleProof = [], txIndexInBlock = 0, bitcoinHeaders = mkHeader (txHashOf ref_lib tx)\<rparr>"

definition env0 :: Env where
  "env0 = \<lparr>block_timestamp = 1700000000, getCurrentEpochDifficulty = 1,
            getPrevEpochDifficulty = 1, txProofDifficultyFactor = 1\<rparr>"

definition wallet0 :: bytes20 where
  "wallet0 = 0x77"

definition noPreviousSweep :: SweepInfo where
  "noPreviousSweep = \<lparr>txHash = 0, txOutputValue = 0\<rparr>"

text \<open>A wallet that has not swept yet, and two revealed deposits of 25000 and 12000 satoshi.\<close>

definition bridge1 :: Bridge where
  "bridge1 = \<lparr>isVaultTrusted = (\<lambda>_. False),
     deposits = (\<lambda>_. noDeposit)
       (depositKey ref_lib 0xA1 0 :=
          \<lparr>depositor = 0xD1, amount = 25000, revealedAt = 1600000000, vault = 0, sweptAt = 0\<rparr>,
        depositKey ref_lib 0xA2 1 :=
          \<lparr>depositor = 0xD2, amount = 12000, revealedAt = 1600000001, vault = 0, sweptAt = 0\<rparr>),
     sweeps = (\<lambda>_. 0)\<rparr>"

text \<open>The sweep of both, with an output of 35399: a fee of 1601, which two do not divide.\<close>

definition sweepTx1 :: TxInfo where
  "sweepTx1 = mkTx ([2] @ mkInput 0xA1 0 @ mkInput 0xA2 1) ([1] @ p2wpkhOutput 35399 wallet0)"

text \<open>The same sweep paying a script hash (P2SH) instead of the wallet's key hash.\<close>

definition sweepTx1_p2sh :: TxInfo where
  "sweepTx1_p2sh = mkTx ([2] @ mkInput 0xA1 0 @ mkInput 0xA2 1) ([1] @ p2shOutput 35399 wallet0)"

text \<open>
  A wallet whose previous sweep (transaction \<open>0xB0\<close>, output 35400) is recorded, and
  two revealed deposits of 17000 and 10000 satoshi.
\<close>

definition previousSweep2 :: SweepInfo where
  "previousSweep2 = \<lparr>txHash = 0xB0, txOutputValue = 35400\<rparr>"

definition bridge2 :: Bridge where
  "bridge2 = \<lparr>isVaultTrusted = (\<lambda>_. False),
     deposits = (\<lambda>_. noDeposit)
       (depositKey ref_lib 0xA3 0 :=
          \<lparr>depositor = 0xD3, amount = 17000, revealedAt = 1600000002, vault = 0, sweptAt = 0\<rparr>,
        depositKey ref_lib 0xA4 0 :=
          \<lparr>depositor = 0xD4, amount = 10000, revealedAt = 1600000003, vault = 0, sweptAt = 0\<rparr>),
     sweeps = (\<lambda>_. 0)(wallet0 := sweepPointer ref_lib 0xB0 35400)\<rparr>"

text \<open>
  Its next sweep. The first input names transaction \<open>0xB0\<close> with output index 7,
  although a sweep transaction has a single output, of index 0.
\<close>

definition sweepTx2 :: TxInfo where
  "sweepTx2 = mkTx ([3] @ mkInput 0xB0 7 @ mkInput 0xA3 0 @ mkInput 0xA4 0) ([1] @ p2wpkhOutput 60800 wallet0)"

text \<open>A sweep of one deposit and one input that is neither a deposit nor the previous sweep.\<close>

definition sweepTx2_foreign :: TxInfo where
  "sweepTx2_foreign = mkTx ([2] @ mkInput 0xA3 0 @ mkInput 0xEE 0) ([1] @ p2wpkhOutput 16000 wallet0)"

text \<open>A sweep of the two deposits only, without the previous sweep's output.\<close>

definition sweepTx2_deposits :: TxInfo where
  "sweepTx2_deposits = mkTx ([2] @ mkInput 0xA3 0 @ mkInput 0xA4 0) ([1] @ p2wpkhOutput 26000 wallet0)"

text \<open>A sweep of the previous sweep's output alone.\<close>

definition sweepTx2_alone :: TxInfo where
  "sweepTx2_alone = mkTx ([1] @ mkInput 0xB0 0) ([1] @ p2wpkhOutput 35000 wallet0)"

text \<open>Deposits of 10 and 40000 satoshi, swept with a fee of 40000: a share of 20000 each.\<close>

definition bridge3 :: Bridge where
  "bridge3 = \<lparr>isVaultTrusted = (\<lambda>_. False),
     deposits = (\<lambda>_. noDeposit)
       (depositKey ref_lib 0xA5 0 :=
          \<lparr>depositor = 0xD5, amount = 10, revealedAt = 1600000004, vault = 0, sweptAt = 0\<rparr>,
        depositKey ref_lib 0xA6 0 :=
          \<lparr>depositor = 0xD6, amount = 40000, revealedAt = 1600000005, vault = 0, sweptAt = 0\<rparr>),
     sweeps = (\<lambda>_. 0)\<rparr>"

definition sweepTx3 :: TxInfo where
  "sweepTx3 = mkTx ([2] @ mkInput 0xA5 0 @ mkInput 0xA6 0) ([1] @ p2wpkhOutput 10 wallet0)"

text \<open>The first state after the deposit of 25000 satoshi has been swept.\<close>

definition bridge1_swept :: Bridge where
  "bridge1_swept = bridge1\<lparr>deposits := (deposits bridge1)
       (depositKey ref_lib 0xA1 0 :=
          \<lparr>depositor = 0xD1, amount = 25000, revealedAt = 1600000000, vault = 0, sweptAt = 1650000000\<rparr>)\<rparr>"

text \<open>
  A reveal, and a funding transaction whose only output pays 25000 satoshi to the
  script hash (P2SH) of the reveal's script.
\<close>

definition reveal1 :: RevealInfo where
  "reveal1 = \<lparr>fundingOutputIndex = 0, revealDepositor = 0xD1, blindingFactor = 0xF1,
     walletPubKeyHash = wallet0, refundPubKeyHash = 0x99, refundLocktime = 0x60000000,
     revealVault = 0\<rparr>"

definition fundingTx1 :: TxInfo where
  "fundingTx1 = mkTx ([1] @ mkInput 0xF0 0)
     ([1] @ p2shOutput 25000 (of_nat (be_nat (expectedScript reveal1) mod 2 ^ 160)))"

section \<open>The sweep transaction assembler\<close>

text \<open>
  \<open>assembleDepositSweepTransaction\<close> and the functions it calls (TypeScript). An
  exception is a result \<open>Inl\<close>. A \<open>BigNumber\<close> is an integer; a JavaScript number holds
  an integer exactly below \<open>2 ^ 53\<close>, and \<open>toNumber\<close> throws beyond that. Buffers and
  hexadecimal strings are byte lists. What comes from bitcoinjs-lib, ecpair and the
  project's \<open>./bitcoin\<close> and \<open>./deposit\<close> modules is a record of functions, as for the
  contract; \<open>None\<close> is a call that throws.
\<close>

datatype js_error =
    NoDepositUtxo                 \<comment> \<open>"There must be at least one deposit UTXO to sweep"\<close>
  | UtxoDepositCountMismatch      \<comment> \<open>"Number of UTXOs must equal the number of deposit elements"\<close>
  | UtxoNotOwnedByWallet          \<comment> \<open>"UTXO does not belong to the wallet"\<close>
  | InvalidScriptFormat           \<comment> \<open>"Invalid script format"\<close>
  | UnknownMainUtxoType           \<comment> \<open>"Unknown type of main UTXO"\<close>
  | UnsupportedUtxoScriptType     \<comment> \<open>"Unsupported UTXO script type"\<close>
  | AmountMismatch                \<comment> \<open>"Mismatch between amount in deposit and deposit tx"\<close>
  | WalletKeyMismatch             \<comment> \<open>"Wallet public key does not correspond to wallet private key"\<close>
  | UncompressedWalletKey         \<comment> \<open>"Wallet public key must be compressed"\<close>
  | Thrown                        \<comment> \<open>an exception of a library or of the runtime\<close>

datatype BitcoinNetwork = Mainnet | Testnet | UnknownNetwork

datatype chunk = Opcode nat | Data bytes

record UnspentTransactionOutput =
  transactionHash :: bytes
  outputIndex :: nat
  utxoValue :: int

record RawUtxo = UnspentTransactionOutput +
  transactionHex :: bytes

record Deposit =
  depositDepositor :: bytes
  depositAmount :: int
  walletPublicKeyHash :: bytes
  refundPublicKeyHash :: bytes
  depositBlindingFactor :: bytes
  depositRefundLocktime :: bytes
  depositVault :: "bytes option"

record TxInput =
  inHash :: bytes
  inIndex :: nat
  inScript :: bytes
  inWitness :: "bytes list"

record TxOutput =
  outScript :: bytes
  outValue :: int

record Transaction =
  ins :: "TxInput list"
  outs :: "TxOutput list"

record Signer =
  publicKey :: bytes
  sign :: "bytes \<Rightarrow> bytes option"

record js_lib =
  fromWIF :: "string \<Rightarrow> BitcoinNetwork \<Rightarrow> Signer option"
  publicKeyToAddress :: "bytes \<Rightarrow> BitcoinNetwork \<Rightarrow> bool \<Rightarrow> string option"
  createOutputScriptFromAddress :: "string \<Rightarrow> bytes option"
  acceptsInput :: "bytes \<Rightarrow> nat \<Rightarrow> bool"
  acceptsOutput :: "bytes \<Rightarrow> int \<Rightarrow> bool"
  outputOfRawTransaction :: "bytes \<Rightarrow> nat \<Rightarrow> TxOutput option"
  isP2PKHScript :: "bytes \<Rightarrow> bool"
  isP2WPKHScript :: "bytes \<Rightarrow> bool"
  isP2SHScript :: "bytes \<Rightarrow> bool"
  isP2WSHScript :: "bytes \<Rightarrow> bool"
  hashForSignature :: "Transaction \<Rightarrow> nat \<Rightarrow> bytes \<Rightarrow> bytes option"
  hashForWitnessV0 :: "Transaction \<Rightarrow> nat \<Rightarrow> bytes \<Rightarrow> int \<Rightarrow> bytes option"
  signatureEncode :: "bytes \<Rightarrow> bytes option"
  p2pkhInput :: "bytes \<Rightarrow> bytes \<Rightarrow> bytes option"
  p2pkhOutputOfHash :: "bytes \<Rightarrow> bytes option"
  decompile :: "bytes \<Rightarrow> chunk list option"
  compile :: "bytes list \<Rightarrow> bytes option"
  p2pkhAddressOfKey :: "bytes \<Rightarrow> BitcoinNetwork \<Rightarrow> string option"
  p2wpkhAddressOfKey :: "bytes \<Rightarrow> BitcoinNetwork \<Rightarrow> string option"
  p2pkhAddressOfOutput :: "bytes \<Rightarrow> BitcoinNetwork \<Rightarrow> string option"
  p2wpkhAddressOfOutput :: "bytes \<Rightarrow> BitcoinNetwork \<Rightarrow> string option"
  computeHash160 :: "bytes \<Rightarrow> bytes"
  isCompressedPublicKey :: "bytes \<Rightarrow> bool"
  assembleDepositScript :: "Deposit \<Rightarrow> bytes option"
  getId :: "Transaction \<Rightarrow> bytes"
  toHex :: "Transaction \<Rightarrow> bytes"

record SweepTransaction =
  sweepTransactionHash :: bytes
  newMainUtxo :: UnspentTransactionOutput
  rawTransaction :: bytes

definition bindJ :: "js_error + 'a \<Rightarrow> ('a \<Rightarrow> js_error + 'b) \<Rightarrow> js_error + 'b" where
  "bindJ m f = (case m of Inl e \<Rightarrow> Inl e | Inr x \<Rightarrow> f x)"

definition jscall :: "'a option \<Rightarrow> js_error + 'a" where
  "jscall r = (case r of None \<Rightarrow> Inl Thrown | Some x \<Rightarrow> Inr x)"

definition toNumber :: "int \<Rightarrow> js_error + int" where
  "toNumber x = (if \<bar>x\<bar> < 2 ^ 53 then Inr x else Inl Thrown)"

definition addInput :: "js_lib \<Rightarrow> Transaction \<Rightarrow> bytes \<Rightarrow> nat \<Rightarrow> js_error + Transaction" where
  "addInput J tx h i =
     (if acceptsInput J h i
      then Inr (tx\<lparr>ins := ins tx @ [\<lparr>inHash = h, inIndex = i, inScript = [], inWitness = []\<rparr>]\<rparr>)
      else Inl Thrown)"

definition addOutput :: "js_lib \<Rightarrow> Transaction \<Rightarrow> bytes \<Rightarrow> int \<Rightarrow> js_error + Transaction" where
  "addOutput J tx script v =
     (if acceptsOutput J script v
      then Inr (tx\<lparr>outs := outs tx @ [\<lparr>outScript = script, outValue = v\<rparr>]\<rparr>)
      else Inl Thrown)"

text \<open>\<open>transaction.ins[inputIndex].script = s\<close>; it throws when there is no such input.\<close>

definition setInputScript :: "Transaction \<Rightarrow> nat \<Rightarrow> bytes \<Rightarrow> js_error + Transaction" where
  "setInputScript tx inputIndex s =
     (if inputIndex < length (ins tx)
      then Inr (tx\<lparr>ins := (ins tx)[inputIndex := (ins tx ! inputIndex)\<lparr>inScript := s\<rparr>]\<rparr>)
      else Inl Thrown)"

definition setInputWitness :: "Transaction \<Rightarrow> nat \<Rightarrow> bytes list \<Rightarrow> js_error + Transaction" where
  "setInputWitness tx inputIndex w =
     (if inputIndex < length (ins tx)
      then Inr (tx\<lparr>ins := (ins tx)[inputIndex := (ins tx ! inputIndex)\<lparr>inWitness := w\<rparr>]\<rparr>)
      else Inl Thrown)"

definition ownsUtxo :: "js_lib \<Rightarrow> Signer \<Rightarrow> bytes \<Rightarrow> BitcoinNetwork \<Rightarrow> js_error + bool" where
  "ownsUtxo J keyPair prevOutScript bitcoinNetwork =
     bindJ (jscall (p2pkhAddressOfKey J (publicKey keyPair) bitcoinNetwork)) (\<lambda>p2pkhAddress.
     bindJ (jscall (p2wpkhAddressOfKey J (publicKey keyPair) bitcoinNetwork)) (\<lambda>p2wpkhAddress.
     case p2pkhAddressOfOutput J prevOutScript bitcoinNetwork of
       Some addressFromOutput \<Rightarrow>
         Inr (addressFromOutput = p2pkhAddress \<or> addressFromOutput = p2wpkhAddress)
     | None \<Rightarrow>
         (case p2wpkhAddressOfOutput J prevOutScript bitcoinNetwork of
            Some addressFromOutput \<Rightarrow>
              Inr (addressFromOutput = p2pkhAddress \<or> addressFromOutput = p2wpkhAddress)
          | None \<Rightarrow> Inr False)))"

definition validP2WPKHChunks :: "chunk list option \<Rightarrow> bytes option" where
  "validP2WPKHChunks d =
     (case d of
        Some [Opcode op, Data publicKeyHash] \<Rightarrow>
          if op = 0 \<and> length publicKeyHash = 20 then Some publicKeyHash else None
      | _ \<Rightarrow> None)"

definition signMainUtxoInput ::
  "js_lib \<Rightarrow> Transaction \<Rightarrow> nat \<Rightarrow> TxOutput \<Rightarrow> Signer \<Rightarrow> BitcoinNetwork \<Rightarrow> js_error + Transaction" where
  "signMainUtxoInput J tx inputIndex previousOutput walletKeyPair bitcoinNetwork =
     bindJ (ownsUtxo J walletKeyPair (outScript previousOutput) bitcoinNetwork) (\<lambda>owns.
     if \<not> owns then Inl UtxoNotOwnedByWallet
     else if isP2PKHScript J (outScript previousOutput) then
       bindJ (jscall (hashForSignature J tx inputIndex (outScript previousOutput))) (\<lambda>sigHash.
       bindJ (jscall (sign walletKeyPair sigHash)) (\<lambda>sg.
       bindJ (jscall (signatureEncode J sg)) (\<lambda>signature.
       bindJ (jscall (p2pkhInput J signature (publicKey walletKeyPair))) (\<lambda>scriptSig.
       setInputScript tx inputIndex scriptSig))))
     else if isP2WPKHScript J (outScript previousOutput) then
       (case validP2WPKHChunks (decompile J (outScript previousOutput)) of
          None \<Rightarrow> Inl InvalidScriptFormat
        | Some publicKeyHash \<Rightarrow>
            bindJ (jscall (p2pkhOutputOfHash J publicKeyHash)) (\<lambda>p2pkhScript.
            bindJ (jscall (hashForWitnessV0 J tx inputIndex p2pkhScript (outValue previousOutput))) (\<lambda>sigHash.
            bindJ (jscall (sign walletKeyPair sigHash)) (\<lambda>sg.
            bindJ (jscall (signatureEncode J sg)) (\<lambda>signature.
            setInputWitness tx inputIndex [signature, publicKey walletKeyPair])))))
     else Inl UnknownMainUtxoType)"

definition prepareDepositScript :: "js_lib \<Rightarrow> Deposit \<Rightarrow> int \<Rightarrow> Signer \<Rightarrow> js_error + bytes" where
  "prepareDepositScript J deposit previousOutputValue walletKeyPair =
     bindJ (toNumber (depositAmount deposit)) (\<lambda>amountNumber.
     if previousOutputValue \<noteq> amountNumber then Inl AmountMismatch
     else if computeHash160 J (publicKey walletKeyPair) \<noteq> walletPublicKeyHash deposit then Inl WalletKeyMismatch
     else if \<not> isCompressedPublicKey J (publicKey walletKeyPair) then Inl UncompressedWalletKey
     else jscall (assembleDepositScript J (deposit\<lparr>depositAmount := 0, depositVault := None\<rparr>)))"

definition signP2SHDepositInput ::
  "js_lib \<Rightarrow> Transaction \<Rightarrow> nat \<Rightarrow> Deposit \<Rightarrow> int \<Rightarrow> Signer \<Rightarrow> js_error + Transaction" where
  "signP2SHDepositInput J tx inputIndex deposit previousOutputValue walletKeyPair =
     bindJ (prepareDepositScript J deposit previousOutputValue walletKeyPair) (\<lambda>depositScript.
     bindJ (jscall (hashForSignature J tx inputIndex depositScript)) (\<lambda>sigHash.
     bindJ (jscall (sign walletKeyPair sigHash)) (\<lambda>sg.
     bindJ (jscall (signatureEncode J sg)) (\<lambda>signature.
     bindJ (jscall (compile J [signature, publicKey walletKeyPair, depositScript])) (\<lambda>scriptSig.
     setInputScript tx inputIndex scriptSig)))))"

definition signP2WSHDepositInput ::
  "js_lib \<Rightarrow> Transaction \<Rightarrow> nat \<Rightarrow> Deposit \<Rightarrow> int \<Rightarrow> Signer \<Rightarrow> js_error + Transaction" where
  "signP2WSHDepositInput J tx inputIndex deposit previousOutputValue walletKeyPair =
     bindJ (prepareDepositScript J deposit previousOutputValue walletKeyPair) (\<lambda>depositScript.
     bindJ (jscall (hashForWitnessV0 J tx inputIndex depositScript previousOutputValue)) (\<lambda>sigHash.
     bindJ (jscall (sign walletKeyPair sigHash)) (\<lambda>sg.
     bindJ (jscall (signatureEncode J sg)) (\<lambda>signature.
     setInputWitness tx inputIndex [signature, publicKey walletKeyPair, depositScript]))))"

text \<open>The first loop: one input per deposit UTXO, and the sum of the values.\<close>

fun addUtxoInputs ::
  "js_lib \<Rightarrow> Transaction \<Rightarrow> int \<Rightarrow> RawUtxo list \<Rightarrow> js_error + (Transaction \<times> int)" where
  "addUtxoInputs J tx outputValue [] = Inr (tx, outputValue)"
| "addUtxoInputs J tx outputValue (utxo # utxos) =
     bindJ (addInput J tx (rev (transactionHash utxo)) (outputIndex utxo)) (\<lambda>tx'.
     addUtxoInputs J tx' (outputValue + utxoValue utxo) utxos)"

text \<open>
  The signing loop, over the deposits and their UTXOs together (the two lists have the
  same length when it runs); \<open>inputIndex\<close> is the deposit's index, plus one when
  there is a main UTXO.
\<close>

fun signDepositInputs ::
  "js_lib \<Rightarrow> Transaction \<Rightarrow> Signer \<Rightarrow> nat \<Rightarrow> (RawUtxo \<times> Deposit) list \<Rightarrow> js_error + Transaction" where
  "signDepositInputs J tx walletKeyPair inputIndex [] = Inr tx"
| "signDepositInputs J tx walletKeyPair inputIndex ((utxo, deposit) # rest) =
     bindJ (jscall (outputOfRawTransaction J (transactionHex utxo) (outputIndex utxo))) (\<lambda>previousOutput.
     bindJ (if isP2SHScript J (outScript previousOutput) then
              signP2SHDepositInput J tx inputIndex deposit (outValue previousOutput) walletKeyPair
            else if isP2WSHScript J (outScript previousOutput) then
              signP2WSHDepositInput J tx inputIndex deposit (outValue previousOutput) walletKeyPair
            else Inl UnsupportedUtxoScriptType) (\<lambda>tx'.
     signDepositInputs J tx' walletKeyPair (inputIndex + 1) rest))"

definition assembleDepositSweepTransaction ::
  "js_lib \<Rightarrow> BitcoinNetwork \<Rightarrow> int \<Rightarrow> string \<Rightarrow> bool \<Rightarrow> RawUtxo list \<Rightarrow> Deposit list \<Rightarrow>
     RawUtxo option \<Rightarrow> js_error + SweepTransaction" where
  "assembleDepositSweepTransaction J bitcoinNetwork fee walletPrivateKey witness utxos depositList mainUtxo =
     (if length utxos < 1 then Inl NoDepositUtxo
      else if length utxos \<noteq> length depositList then Inl UtxoDepositCountMismatch
      else
        bindJ (jscall (fromWIF J walletPrivateKey bitcoinNetwork)) (\<lambda>walletKeyPair.
        bindJ (jscall (publicKeyToAddress J (publicKey walletKeyPair) bitcoinNetwork witness)) (\<lambda>walletAddress.
        bindJ (case mainUtxo of
                 None \<Rightarrow> Inr (\<lparr>ins = [], outs = []\<rparr>, 0)
               | Some m \<Rightarrow>
                   bindJ (addInput J \<lparr>ins = [], outs = []\<rparr> (rev (transactionHash m)) (outputIndex m)) (\<lambda>tx.
                   Inr (tx, 0 + utxoValue m))) (\<lambda>(tx0, value0).
        bindJ (addUtxoInputs J tx0 value0 utxos) (\<lambda>(tx1, value1).
        let outputValue = value1 - fee in
        bindJ (jscall (createOutputScriptFromAddress J walletAddress)) (\<lambda>outputScript.
        bindJ (toNumber outputValue) (\<lambda>outputNumber.
        bindJ (addOutput J tx1 outputScript outputNumber) (\<lambda>tx2.
        bindJ (case mainUtxo of
                 None \<Rightarrow> Inr tx2
               | Some m \<Rightarrow>
                   bindJ (jscall (outputOfRawTransaction J (transactionHex m) (outputIndex m))) (\<lambda>previousOutput.
                   signMainUtxoInput J tx2 0 previousOutput walletKeyPair bitcoinNetwork)) (\<lambda>tx3.
        bindJ (signDepositInputs J tx3 walletKeyPair (if mainUtxo = None then 0 else 1) (zip utxos depositList)) (\<lambda>tx4.
        case outs tx4 of
          [] \<Rightarrow> Inl Thrown
        | out0 # _ \<Rightarrow>
            Inr \<lparr>sweepTransactionHash = getId J tx4,
                 newMainUtxo = \<lparr>transactionHash = getId J tx4, outputIndex = 0, utxoValue = outValue out0\<rparr>,
                 rawTransaction = toHex J tx4\<rparr>))))))))))"

text \<open>The outpoints of a transaction's inputs, in order.\<close>

definition inputOutpointsOf :: "Transaction \<Rightarrow> (bytes \<times> nat) list" where
  "inputOutpointsOf tx = map (\<lambda>i. (inHash i, inIndex i)) (ins tx)"

definition utxoOutpoint :: "RawUtxo \<Rightarrow> bytes \<times> nat" where
  "utxoOutpoint u = (rev (transactionHash u), outputIndex u)"

subsection \<open>A model of the assembler's libraries\<close>

text \<open>
  Modelled from the spec: the script kinds (spec 4.5, 9) by their opcode templates;
  keys, addresses and signatures are stand-ins that can be computed here (the key is
  its own hash and address, a signature is the signed hash). Used for the concrete run
  only.
\<close>

definition js_isP2SH :: "bytes \<Rightarrow> bool" where
  "js_isP2SH s = (length s = 23 \<and> take 2 s = [0xa9, 0x14] \<and> drop 22 s = [0x87])"

definition js_isP2WSH :: "bytes \<Rightarrow> bool" where
  "js_isP2WSH s = (length s = 34 \<and> take 2 s = [0x00, 0x20])"

definition js_isP2PKH :: "bytes \<Rightarrow> bool" where
  "js_isP2PKH s = (length s = 25 \<and> take 3 s = [0x76, 0xa9, 0x14] \<and> drop 23 s = [0x88, 0xac])"

definition js_isP2WPKH :: "bytes \<Rightarrow> bool" where
  "js_isP2WPKH s = (length s = 22 \<and> take 2 s = [0x00, 0x14])"

definition js_outputOfRawTransaction :: "bytes \<Rightarrow> nat \<Rightarrow> TxOutput option" where
  "js_outputOfRawTransaction raw i =
     map_option (\<lambda>out. \<lparr>outScript = drop 9 out, outValue = int (le_nat (take 8 out))\<rparr>)
       (ref_extractOutputAtIndex raw i)"

definition js_signer :: Signer where
  "js_signer = \<lparr>publicKey = [2, 7], sign = (\<lambda>h. Some h)\<rparr>"

definition test_js :: js_lib where
  "test_js = \<lparr>
     fromWIF = (\<lambda>_ _. Some js_signer),
     publicKeyToAddress = (\<lambda>k _ w. Some (if w then ''w'' else ''p'')),
     createOutputScriptFromAddress = (\<lambda>a. Some (if a = ''w'' then [0x00, 0x14] @ replicate 20 7
                                               else [0x76, 0xa9, 0x14] @ replicate 20 7 @ [0x88, 0xac])),
     acceptsInput = (\<lambda>h i. length h = 32 \<and> i < 2 ^ 32),
     acceptsOutput = (\<lambda>s v. 0 \<le> v \<and> v \<le> 2100000000000000),
     outputOfRawTransaction = js_outputOfRawTransaction,
     isP2PKHScript = js_isP2PKH,
     isP2WPKHScript = js_isP2WPKH,
     isP2SHScript = js_isP2SH,
     isP2WSHScript = js_isP2WSH,
     hashForSignature = (\<lambda>tx i s. Some s),
     hashForWitnessV0 = (\<lambda>tx i s v. Some s),
     signatureEncode = (\<lambda>sg. Some (sg @ [1])),
     p2pkhInput = (\<lambda>sg k. Some (sg @ k)),
     p2pkhOutputOfHash = (\<lambda>h. Some ([0x76, 0xa9, 0x14] @ h @ [0x88, 0xac])),
     decompile = (\<lambda>s. if js_isP2WPKH s then Some [Opcode 0, Data (drop 2 s)] else None),
     compile = (\<lambda>cs. Some (concat cs)),
     p2pkhAddressOfKey = (\<lambda>k _. Some ''p''),
     p2wpkhAddressOfKey = (\<lambda>k _. Some ''w''),
     p2pkhAddressOfOutput = (\<lambda>s _. if js_isP2PKH s then Some ''p'' else None),
     p2wpkhAddressOfOutput = (\<lambda>s _. if js_isP2WPKH s then Some ''w'' else None),
     computeHash160 = (\<lambda>k. k),
     isCompressedPublicKey = (\<lambda>k. True),
     assembleDepositScript = (\<lambda>d. Some (depositDepositor d @ walletPublicKeyHash d)),
     getId = (\<lambda>tx. concat (map inHash (ins tx))),
     toHex = (\<lambda>tx. concat (map (\<lambda>i. inHash i @ inScript i @ concat (inWitness i)) (ins tx)) @
                    concat (map outScript (outs tx)))\<rparr>"

text \<open>
  The scenario of the repository's test: deposits of 25000 (P2SH) and 12000 (P2WSH)
  satoshi, no main UTXO, a fee of 1600.
\<close>

definition utxoA :: RawUtxo where
  "utxoA = \<lparr>transactionHash = replicate 31 0 @ [0xA1], outputIndex = 0, utxoValue = 25000,
            transactionHex = [1] @ p2shOutput 25000 0x51\<rparr>"

definition utxoB :: RawUtxo where
  "utxoB = \<lparr>transactionHash = replicate 31 0 @ [0xA2], outputIndex = 0, utxoValue = 12000,
            transactionHex = [1] @ rev (be_bytes 8 (12000 :: uint64)) @ [0x22, 0x00, 0x20] @ replicate 32 0x52\<rparr>"

definition depositA :: Deposit where
  "depositA = \<lparr>depositDepositor = [0xD1], depositAmount = 25000, walletPublicKeyHash = [2, 7],
               refundPublicKeyHash = [3], depositBlindingFactor = [4], depositRefundLocktime = [5],
               depositVault = None\<rparr>"

definition depositB :: Deposit where
  "depositB = \<lparr>depositDepositor = [0xD2], depositAmount = 12000, walletPublicKeyHash = [2, 7],
               refundPublicKeyHash = [3], depositBlindingFactor = [4], depositRefundLocktime = [5],
               depositVault = None\<rparr>"

section \<open>How the contract's functions succeed\<close>

lemma bindE_Inr_iff: "bindE m f = Inr y \<longleftrightarrow> (\<exists>x. m = Inr x \<and> f x = Inr y)"
  by (cases m) (simp_all add: bindE_def)

lemma libcall_Inr_iff: "libcall r = Inr x \<longleftrightarrow> r = Some x"
  by (cases r) (simp_all add: libcall_def)

lemma require_Inr_iff: "require c e = Inr u \<longleftrightarrow> c"
  by (simp add: require_def)

lemma checked_add_Inr_iff: "checked_add a b = Inr c \<longleftrightarrow> c = a + b \<and> a + b < 2 ^ 256"
  by (auto simp: checked_add_def)

lemma checked_sub_Inr_iff: "checked_sub a b = Inr c \<longleftrightarrow> c = a - b \<and> b \<le> a"
  by (auto simp: checked_sub_def)

lemma checked_div_Inr_iff: "checked_div a b = Inr c \<longleftrightarrow> c = a div b \<and> b \<noteq> 0"
  by (auto simp: checked_div_def)

lemma checked_mul_Inr_iff: "checked_mul a b = Inr c \<longleftrightarrow> c = a * b \<and> a * b < 2 ^ 256"
  by (auto simp: checked_mul_def)

lemmas Inr_iffs = bindE_Inr_iff libcall_Inr_iff require_Inr_iff checked_add_Inr_iff
  checked_sub_Inr_iff checked_div_Inr_iff checked_mul_Inr_iff

lemma processSweepTxInput_Inr:
  assumes "processSweepTxInput L E vin prev ls = Inr ls1"
  shows "\<exists>h i len. parseTxInputAt L vin (inputStartingIndex ls) = Inr (h, i, len) \<and>
     inputStartingIndex ls + len < 2 ^ 256 \<and>
     ((revealedAt (loopDeposits ls (depositKey L h i)) \<noteq> 0 \<and>
       sweptAt (loopDeposits ls (depositKey L h i)) = 0 \<and>
       processedDepositsCount ls < length (depositors ls) \<and>
       processedDepositsCount ls < length (depositedAmounts ls) \<and>
       ls1 = ls\<lparr>loopDeposits := (loopDeposits ls)(depositKey L h i :=
                     (loopDeposits ls (depositKey L h i))\<lparr>sweptAt := of_nat (block_timestamp E)\<rparr>),
                 depositors := (depositors ls)[processedDepositsCount ls :=
                     depositor (loopDeposits ls (depositKey L h i))],
                 depositedAmounts := (depositedAmounts ls)[processedDepositsCount ls :=
                     unat (amount (loopDeposits ls (depositKey L h i)))],
                 inputsValue := inputsValue ls + unat (amount (loopDeposits ls (depositKey L h i))),
                 processedDepositsCount := processedDepositsCount ls + 1,
                 inputStartingIndex := inputStartingIndex ls + len\<rparr>)
      \<or>
      (revealedAt (loopDeposits ls (depositKey L h i)) = 0 \<and>
       \<not> previousSweepFlag ls \<and> txHash prev = h \<and>
       ls1 = ls\<lparr>inputsValue := inputsValue ls + unat (txOutputValue prev),
                 previousSweepFlag := True,
                 inputStartingIndex := inputStartingIndex ls + len\<rparr>))"
proof -
  from assms obtain h i len ls' where
    p: "parseTxInputAt L vin (inputStartingIndex ls) = Inr (h, i, len)"
    and b: "(if revealedAt (loopDeposits ls (depositKey L h i)) \<noteq> 0 then
          bindE (require (sweptAt (loopDeposits ls (depositKey L h i)) = 0) DepositAlreadySwept) (\<lambda>_.
          let deposit' = (loopDeposits ls (depositKey L h i))\<lparr>sweptAt := of_nat (block_timestamp E)\<rparr> in
          bindE (require (processedDepositsCount ls < length (depositors ls)) PanicIndexOutOfBounds) (\<lambda>_.
          bindE (require (processedDepositsCount ls < length (depositedAmounts ls)) PanicIndexOutOfBounds) (\<lambda>_.
          bindE (checked_add (inputsValue ls) (unat (amount deposit'))) (\<lambda>total.
          Inr (ls\<lparr>loopDeposits := (loopDeposits ls)(depositKey L h i := deposit'),
                  depositors := (depositors ls)[processedDepositsCount ls := depositor deposit'],
                  depositedAmounts := (depositedAmounts ls)[processedDepositsCount ls := unat (amount deposit')],
                  inputsValue := total,
                  processedDepositsCount := processedDepositsCount ls + 1\<rparr>)))))
        else if \<not> previousSweepFlag ls \<and> txHash prev = h then
          bindE (checked_add (inputsValue ls) (unat (txOutputValue prev))) (\<lambda>total.
          Inr (ls\<lparr>inputsValue := total, previousSweepFlag := True\<rparr>))
        else Inl UnknownInputOrigin) = Inr ls'"
    and n: "checked_add (inputStartingIndex ls') len = Inr (inputStartingIndex ls' + len)"
    and e: "ls1 = ls'\<lparr>inputStartingIndex := inputStartingIndex ls' + len\<rparr>"
    unfolding processSweepTxInput_def
    by (auto simp: Inr_iffs Let_def)
  show ?thesis
  proof (cases "revealedAt (loopDeposits ls (depositKey L h i)) \<noteq> 0")
    case True
    with b n e p show ?thesis
      by (auto simp: Inr_iffs Let_def)
  next
    case False
    with b n e p show ?thesis
      by (auto simp: Inr_iffs Let_def split: if_splits)
  qed
qed


lemma loop_induct [consumes 1, case_names stop deposit previous]:
  assumes run: "processSweepTxInputsLoop L E vin prev n ls = Inr ls'"
  and stop: "\<And>n ls. n = 0 \<or> inputStartingIndex ls \<ge> length vin \<Longrightarrow> P n ls ls"
  and deposit: "\<And>n ls ls1 ls' h i len.
      inputStartingIndex ls < length vin \<Longrightarrow>
      parseTxInputAt L vin (inputStartingIndex ls) = Inr (h, i, len) \<Longrightarrow>
      inputStartingIndex ls + len < 2 ^ 256 \<Longrightarrow>
      revealedAt (loopDeposits ls (depositKey L h i)) \<noteq> 0 \<Longrightarrow>
      sweptAt (loopDeposits ls (depositKey L h i)) = 0 \<Longrightarrow>
      processedDepositsCount ls < length (depositors ls) \<Longrightarrow>
      processedDepositsCount ls < length (depositedAmounts ls) \<Longrightarrow>
      ls1 = ls\<lparr>loopDeposits := (loopDeposits ls)(depositKey L h i :=
                     (loopDeposits ls (depositKey L h i))\<lparr>sweptAt := of_nat (block_timestamp E)\<rparr>),
                 depositors := (depositors ls)[processedDepositsCount ls :=
                     depositor (loopDeposits ls (depositKey L h i))],
                 depositedAmounts := (depositedAmounts ls)[processedDepositsCount ls :=
                     unat (amount (loopDeposits ls (depositKey L h i)))],
                 inputsValue := inputsValue ls + unat (amount (loopDeposits ls (depositKey L h i))),
                 processedDepositsCount := processedDepositsCount ls + 1,
                 inputStartingIndex := inputStartingIndex ls + len\<rparr> \<Longrightarrow>
      processSweepTxInputsLoop L E vin prev n ls1 = Inr ls' \<Longrightarrow>
      P n ls1 ls' \<Longrightarrow> P (Suc n) ls ls'"
  and previous: "\<And>n ls ls1 ls' h i len.
      inputStartingIndex ls < length vin \<Longrightarrow>
      parseTxInputAt L vin (inputStartingIndex ls) = Inr (h, i, len) \<Longrightarrow>
      inputStartingIndex ls + len < 2 ^ 256 \<Longrightarrow>
      revealedAt (loopDeposits ls (depositKey L h i)) = 0 \<Longrightarrow>
      \<not> previousSweepFlag ls \<Longrightarrow> txHash prev = h \<Longrightarrow>
      ls1 = ls\<lparr>inputsValue := inputsValue ls + unat (txOutputValue prev),
                 previousSweepFlag := True,
                 inputStartingIndex := inputStartingIndex ls + len\<rparr> \<Longrightarrow>
      processSweepTxInputsLoop L E vin prev n ls1 = Inr ls' \<Longrightarrow>
      P n ls1 ls' \<Longrightarrow> P (Suc n) ls ls'"
  shows "P n ls ls'"
  using run
proof (induction n arbitrary: ls)
  case 0
  then show ?case using stop[of 0 ls] by simp
next
  case (Suc n)
  show ?case
  proof (cases "inputStartingIndex ls \<ge> length vin")
    case True
    with Suc.prems stop[of "Suc n" ls] show ?thesis by simp
  next
    case False
    with Suc.prems obtain ls1 where
      s: "processSweepTxInput L E vin prev ls = Inr ls1"
      and r: "processSweepTxInputsLoop L E vin prev n ls1 = Inr ls'"
      by (auto simp: bindE_Inr_iff)
    from Suc.IH[OF r] have ih: "P n ls1 ls'" .
    from processSweepTxInput_Inr[OF s] obtain h i len where
      p: "parseTxInputAt L vin (inputStartingIndex ls) = Inr (h, i, len)"
      and b: "inputStartingIndex ls + len < 2 ^ 256"
      and d: "(revealedAt (loopDeposits ls (depositKey L h i)) \<noteq> 0 \<and>
       sweptAt (loopDeposits ls (depositKey L h i)) = 0 \<and>
       processedDepositsCount ls < length (depositors ls) \<and>
       processedDepositsCount ls < length (depositedAmounts ls) \<and>
       ls1 = ls\<lparr>loopDeposits := (loopDeposits ls)(depositKey L h i :=
                     (loopDeposits ls (depositKey L h i))\<lparr>sweptAt := of_nat (block_timestamp E)\<rparr>),
                 depositors := (depositors ls)[processedDepositsCount ls :=
                     depositor (loopDeposits ls (depositKey L h i))],
                 depositedAmounts := (depositedAmounts ls)[processedDepositsCount ls :=
                     unat (amount (loopDeposits ls (depositKey L h i)))],
                 inputsValue := inputsValue ls + unat (amount (loopDeposits ls (depositKey L h i))),
                 processedDepositsCount := processedDepositsCount ls + 1,
                 inputStartingIndex := inputStartingIndex ls + len\<rparr>)
      \<or>
      (revealedAt (loopDeposits ls (depositKey L h i)) = 0 \<and>
       \<not> previousSweepFlag ls \<and> txHash prev = h \<and>
       ls1 = ls\<lparr>inputsValue := inputsValue ls + unat (txOutputValue prev),
                 previousSweepFlag := True,
                 inputStartingIndex := inputStartingIndex ls + len\<rparr>)"
      by blast
    from False have lt: "inputStartingIndex ls < length vin" by simp
    from d show ?thesis
    proof
      assume a: "revealedAt (loopDeposits ls (depositKey L h i)) \<noteq> 0 \<and>
       sweptAt (loopDeposits ls (depositKey L h i)) = 0 \<and>
       processedDepositsCount ls < length (depositors ls) \<and>
       processedDepositsCount ls < length (depositedAmounts ls) \<and>
       ls1 = ls\<lparr>loopDeposits := (loopDeposits ls)(depositKey L h i :=
                     (loopDeposits ls (depositKey L h i))\<lparr>sweptAt := of_nat (block_timestamp E)\<rparr>),
                 depositors := (depositors ls)[processedDepositsCount ls :=
                     depositor (loopDeposits ls (depositKey L h i))],
                 depositedAmounts := (depositedAmounts ls)[processedDepositsCount ls :=
                     unat (amount (loopDeposits ls (depositKey L h i)))],
                 inputsValue := inputsValue ls + unat (amount (loopDeposits ls (depositKey L h i))),
                 processedDepositsCount := processedDepositsCount ls + 1,
                 inputStartingIndex := inputStartingIndex ls + len\<rparr>"
      show ?thesis
        by (rule deposit[OF lt p b _ _ _ _ _ r ih]) (use a in blast)+
    next
      assume a: "revealedAt (loopDeposits ls (depositKey L h i)) = 0 \<and>
       \<not> previousSweepFlag ls \<and> txHash prev = h \<and>
       ls1 = ls\<lparr>inputsValue := inputsValue ls + unat (txOutputValue prev),
                 previousSweepFlag := True,
                 inputStartingIndex := inputStartingIndex ls + len\<rparr>"
      show ?thesis
        by (rule previous[OF lt p b _ _ _ _ r ih]) (use a in blast)+
    qed
  qed
qed

lemma loop_frame:
  assumes "processSweepTxInputsLoop L E vin prev n ls = Inr ls'"
  shows "revealedAt (loopDeposits ls' k) = revealedAt (loopDeposits ls k) \<and>
         amount (loopDeposits ls' k) = amount (loopDeposits ls k) \<and>
         depositor (loopDeposits ls' k) = depositor (loopDeposits ls k) \<and>
         vault (loopDeposits ls' k) = vault (loopDeposits ls k)"
  using assms
  by (induction rule: loop_induct) auto

lemma loop_isRevealed:
  assumes "processSweepTxInputsLoop L E vin prev n ls = Inr ls'"
  shows "isRevealed (loopDeposits ls') = isRevealed (loopDeposits ls)"
  using loop_frame[OF assms] by (auto simp: isRevealed_def fun_eq_iff)

lemma loop_lengths:
  assumes "processSweepTxInputsLoop L E vin prev n ls = Inr ls'"
  shows "length (depositors ls') = length (depositors ls) \<and>
         length (depositedAmounts ls') = length (depositedAmounts ls)"
  using assms
  by (induction rule: loop_induct) auto


lemma sweptKeysFrom_stop: "n = 0 \<or> start \<ge> length vin \<Longrightarrow> sweptKeysFrom L deps vin start n = []"
  by (cases n) (auto simp: sweptKeysFrom_def)

lemma otherInputsFrom_stop: "n = 0 \<or> start \<ge> length vin \<Longrightarrow> otherInputsFrom L deps vin start n = []"
  by (cases n) (auto simp: otherInputsFrom_def)

lemma sweptKeysFrom_step:
  "start < length vin \<Longrightarrow> parseTxInputAt L vin start = Inr (h, i, len) \<Longrightarrow>
   sweptKeysFrom L deps vin start (Suc n) =
     (if revealedAt (deps (depositKey L h i)) \<noteq> 0 then [depositKey L h i] else []) @
     sweptKeysFrom L deps vin (start + len) n"
  by (simp add: sweptKeysFrom_def isRevealed_def outpointKey_def)

lemma otherInputsFrom_step:
  "start < length vin \<Longrightarrow> parseTxInputAt L vin start = Inr (h, i, len) \<Longrightarrow>
   otherInputsFrom L deps vin start (Suc n) =
     (if revealedAt (deps (depositKey L h i)) \<noteq> 0 then [] else [(h, i)]) @
     otherInputsFrom L deps vin (start + len) n"
  by (simp add: otherInputsFrom_def isRevealed_def outpointKey_def)

lemma sweptKeysFrom_cong:
  "(\<And>k. revealedAt (deps' k) = revealedAt (deps k)) \<Longrightarrow> sweptKeysFrom L deps' vin start n = sweptKeysFrom L deps vin start n"
proof -
  assume "\<And>k. revealedAt (deps' k) = revealedAt (deps k)"
  then have "isRevealed deps' = isRevealed deps" by (simp add: isRevealed_def fun_eq_iff)
  then show ?thesis by (simp add: sweptKeysFrom_def)
qed

lemma otherInputsFrom_cong:
  "(\<And>k. revealedAt (deps' k) = revealedAt (deps k)) \<Longrightarrow> otherInputsFrom L deps' vin start n = otherInputsFrom L deps vin start n"
proof -
  assume "\<And>k. revealedAt (deps' k) = revealedAt (deps k)"
  then have "isRevealed deps' = isRevealed deps" by (simp add: isRevealed_def fun_eq_iff)
  then show ?thesis by (simp add: otherInputsFrom_def)
qed

lemma loop_arrays:
  assumes "processSweepTxInputsLoop L E vin prev n ls = Inr ls'"
  shows "processedDepositsCount ls' =
           processedDepositsCount ls + length (sweptKeysFrom L (loopDeposits ls) vin (inputStartingIndex ls) n) \<and>
         take (processedDepositsCount ls + length (sweptKeysFrom L (loopDeposits ls) vin (inputStartingIndex ls) n))
              (depositors ls') =
           take (processedDepositsCount ls) (depositors ls) @
           map (\<lambda>k. depositor (loopDeposits ls k)) (sweptKeysFrom L (loopDeposits ls) vin (inputStartingIndex ls) n) \<and>
         take (processedDepositsCount ls + length (sweptKeysFrom L (loopDeposits ls) vin (inputStartingIndex ls) n))
              (depositedAmounts ls') =
           take (processedDepositsCount ls) (depositedAmounts ls) @
           map (\<lambda>k. unat (amount (loopDeposits ls k))) (sweptKeysFrom L (loopDeposits ls) vin (inputStartingIndex ls) n) \<and>
         (processedDepositsCount ls \<le> length (depositors ls) \<longrightarrow>
            processedDepositsCount ls + length (sweptKeysFrom L (loopDeposits ls) vin (inputStartingIndex ls) n)
              \<le> length (depositors ls'))"
  using assms
proof (induction rule: loop_induct)
  case (stop n ls)
  then show ?case by (simp add: sweptKeysFrom_stop)
next
  case (deposit n ls ls1 ls' h i len)
  let ?ks = "sweptKeysFrom L (loopDeposits ls) vin (inputStartingIndex ls + len) n"
  let ?key = "depositKey L h i"
  have c: "sweptKeysFrom L (loopDeposits ls1) vin (inputStartingIndex ls1) n = ?ks"
    using deposit.hyps(8) by (auto intro!: sweptKeysFrom_cong)
  have m1: "map (\<lambda>k. depositor (loopDeposits ls1 k)) ks = map (\<lambda>k. depositor (loopDeposits ls k)) ks" for ks
    using deposit.hyps(8) by auto
  have m2: "map (\<lambda>k. unat (amount (loopDeposits ls1 k))) ks = map (\<lambda>k. unat (amount (loopDeposits ls k))) ks" for ks
    using deposit.hyps(8) by auto
  have p1: "processedDepositsCount ls1 = Suc (processedDepositsCount ls)"
    using deposit.hyps(8) by simp
  have l1: "processedDepositsCount ls1 \<le> length (depositors ls1)"
    using deposit.hyps(6,8) by simp
  have t1: "take (processedDepositsCount ls1) (depositors ls1) =
            take (processedDepositsCount ls) (depositors ls) @ [depositor (loopDeposits ls ?key)]"
    using deposit.hyps(6,8) by (simp add: take_Suc_conv_app_nth)
  have t2: "take (processedDepositsCount ls1) (depositedAmounts ls1) =
            take (processedDepositsCount ls) (depositedAmounts ls) @ [unat (amount (loopDeposits ls ?key))]"
    using deposit.hyps(7,8) by (simp add: take_Suc_conv_app_nth)
  have s: "sweptKeysFrom L (loopDeposits ls) vin (inputStartingIndex ls) (Suc n) = ?key # ?ks"
    using deposit.hyps(1,2,4) by (simp add: sweptKeysFrom_step)
  from deposit.IH have
    i1: "processedDepositsCount ls' = processedDepositsCount ls1 + length ?ks"
    and i2: "take (processedDepositsCount ls1 + length ?ks) (depositors ls') =
             take (processedDepositsCount ls1) (depositors ls1) @ map (\<lambda>k. depositor (loopDeposits ls k)) ?ks"
    and i3: "take (processedDepositsCount ls1 + length ?ks) (depositedAmounts ls') =
             take (processedDepositsCount ls1) (depositedAmounts ls1) @ map (\<lambda>k. unat (amount (loopDeposits ls k))) ?ks"
    and i4: "processedDepositsCount ls1 + length ?ks \<le> length (depositors ls')"
    unfolding c m1 m2 using l1 by blast+
  have e: "processedDepositsCount ls + length (?key # ?ks) = processedDepositsCount ls1 + length ?ks"
    by (simp add: p1)
  show ?case
    unfolding s e using i1 i2 i3 i4 by (simp add: t1 t2)
next
  case (previous n ls ls1 ls' h i len)
  have c: "sweptKeysFrom L (loopDeposits ls1) vin (inputStartingIndex ls1) n =
           sweptKeysFrom L (loopDeposits ls) vin (inputStartingIndex ls + len) n"
    using previous.hyps(7) by (auto intro!: sweptKeysFrom_cong)
  have s: "sweptKeysFrom L (loopDeposits ls) vin (inputStartingIndex ls) (Suc n) =
           sweptKeysFrom L (loopDeposits ls) vin (inputStartingIndex ls + len) n"
    using previous.hyps(1,2,4) by (simp add: sweptKeysFrom_step)
  have e: "processedDepositsCount ls1 = processedDepositsCount ls"
    "depositors ls1 = depositors ls" "depositedAmounts ls1 = depositedAmounts ls"
    "loopDeposits ls1 = loopDeposits ls" "inputStartingIndex ls1 = inputStartingIndex ls + len"
    using previous.hyps(7) by simp_all
  show ?case
    using previous.IH unfolding s e .
qed

lemma loop_flag:
  assumes "processSweepTxInputsLoop L E vin prev n ls = Inr ls'"
  shows "previousSweepFlag ls' =
           (previousSweepFlag ls \<or> otherInputsFrom L (loopDeposits ls) vin (inputStartingIndex ls) n \<noteq> []) \<and>
         length (otherInputsFrom L (loopDeposits ls) vin (inputStartingIndex ls) n) \<le>
           (if previousSweepFlag ls then 0 else 1) \<and>
         (\<forall>op \<in> set (otherInputsFrom L (loopDeposits ls) vin (inputStartingIndex ls) n). fst op = txHash prev) \<and>
         inputsValue ls' = inputsValue ls +
           sum_list (map (\<lambda>k. unat (amount (loopDeposits ls k))) (sweptKeysFrom L (loopDeposits ls) vin (inputStartingIndex ls) n)) +
           length (otherInputsFrom L (loopDeposits ls) vin (inputStartingIndex ls) n) * unat (txOutputValue prev)"
  using assms
proof (induction rule: loop_induct)
  case (stop n ls)
  then show ?case by (simp add: sweptKeysFrom_stop otherInputsFrom_stop)
next
  case (deposit n ls ls1 ls' h i len)
  have c: "sweptKeysFrom L (loopDeposits ls1) vin (inputStartingIndex ls1) n =
           sweptKeysFrom L (loopDeposits ls) vin (inputStartingIndex ls + len) n"
    using deposit.hyps(8) by (auto intro!: sweptKeysFrom_cong)
  have d: "otherInputsFrom L (loopDeposits ls1) vin (inputStartingIndex ls1) n =
           otherInputsFrom L (loopDeposits ls) vin (inputStartingIndex ls + len) n"
    using deposit.hyps(8) by (auto intro!: otherInputsFrom_cong)
  have m2: "map (\<lambda>k. unat (amount (loopDeposits ls1 k))) ks = map (\<lambda>k. unat (amount (loopDeposits ls k))) ks" for ks
    using deposit.hyps(8) by auto
  have f: "previousSweepFlag ls1 = previousSweepFlag ls"
    "inputsValue ls1 = inputsValue ls + unat (amount (loopDeposits ls (depositKey L h i)))"
    using deposit.hyps(8) by auto
  show ?case
    using deposit.IH deposit.hyps(1,2,4)
    unfolding c d m2 f
    by (simp add: sweptKeysFrom_step otherInputsFrom_step)
next
  case (previous n ls ls1 ls' h i len)
  have c: "sweptKeysFrom L (loopDeposits ls1) vin (inputStartingIndex ls1) n =
           sweptKeysFrom L (loopDeposits ls) vin (inputStartingIndex ls + len) n"
    using previous.hyps(7) by (auto intro!: sweptKeysFrom_cong)
  have d: "otherInputsFrom L (loopDeposits ls1) vin (inputStartingIndex ls1) n =
           otherInputsFrom L (loopDeposits ls) vin (inputStartingIndex ls + len) n"
    using previous.hyps(7) by (auto intro!: otherInputsFrom_cong)
  have m2: "map (\<lambda>k. unat (amount (loopDeposits ls1 k))) ks = map (\<lambda>k. unat (amount (loopDeposits ls k))) ks" for ks
    using previous.hyps(7) by auto
  have f: "previousSweepFlag ls1" "\<not> previousSweepFlag ls"
    "inputsValue ls1 = inputsValue ls + unat (txOutputValue prev)"
    using previous.hyps(5,7) by auto
  show ?case
    using previous.IH previous.hyps(1,2,4,6)
    unfolding c d m2
    by (simp add: sweptKeysFrom_step otherInputsFrom_step f)
qed

lemma loop_swept:
  assumes "processSweepTxInputsLoop L E vin prev n ls = Inr ls'"
  shows "(\<forall>k \<in> set (sweptKeysFrom L (loopDeposits ls) vin (inputStartingIndex ls) n).
            sweptAt (loopDeposits ls k) = 0 \<and>
            loopDeposits ls' k = (loopDeposits ls k)\<lparr>sweptAt := of_nat (block_timestamp E)\<rparr>) \<and>
         (\<forall>k. k \<notin> set (sweptKeysFrom L (loopDeposits ls) vin (inputStartingIndex ls) n) \<longrightarrow>
            loopDeposits ls' k = loopDeposits ls k) \<and>
         ((of_nat (block_timestamp E) :: uint32) \<noteq> 0 \<longrightarrow>
            distinct (sweptKeysFrom L (loopDeposits ls) vin (inputStartingIndex ls) n))"
  using assms
proof (induction rule: loop_induct)
  case (stop n ls)
  then show ?case by (simp add: sweptKeysFrom_stop)
next
  case (deposit n ls ls1 ls' h i len)
  let ?key = "depositKey L h i"
  let ?ks = "sweptKeysFrom L (loopDeposits ls) vin (inputStartingIndex ls + len) n"
  have c: "sweptKeysFrom L (loopDeposits ls1) vin (inputStartingIndex ls1) n = ?ks"
    using deposit.hyps(8) by (auto intro!: sweptKeysFrom_cong)
  have s: "sweptKeysFrom L (loopDeposits ls) vin (inputStartingIndex ls) (Suc n) = ?key # ?ks"
    using deposit.hyps(1,2,4) by (simp add: sweptKeysFrom_step)
  have l1k: "loopDeposits ls1 ?key = (loopDeposits ls ?key)\<lparr>sweptAt := of_nat (block_timestamp E)\<rparr>"
    using deposit.hyps(8) by simp
  have l1o: "k \<noteq> ?key \<Longrightarrow> loopDeposits ls1 k = loopDeposits ls k" for k
    using deposit.hyps(8) by simp
  have ih: "(\<forall>k \<in> set ?ks. sweptAt (loopDeposits ls1 k) = 0 \<and>
            loopDeposits ls' k = (loopDeposits ls1 k)\<lparr>sweptAt := of_nat (block_timestamp E)\<rparr>) \<and>
     (\<forall>k. k \<notin> set ?ks \<longrightarrow> loopDeposits ls' k = loopDeposits ls1 k) \<and>
     ((of_nat (block_timestamp E) :: uint32) \<noteq> 0 \<longrightarrow> distinct ?ks)"
    using deposit.IH unfolding c .
  note ih1 = conjunct1[OF ih] and ih2 = conjunct1[OF conjunct2[OF ih]]
    and ih3 = conjunct2[OF conjunct2[OF ih]]
  have a: "\<forall>k \<in> set (?key # ?ks). sweptAt (loopDeposits ls k) = 0 \<and>
            loopDeposits ls' k = (loopDeposits ls k)\<lparr>sweptAt := of_nat (block_timestamp E)\<rparr>"
  proof
    fix k assume k: "k \<in> set (?key # ?ks)"
    show "sweptAt (loopDeposits ls k) = 0 \<and>
            loopDeposits ls' k = (loopDeposits ls k)\<lparr>sweptAt := of_nat (block_timestamp E)\<rparr>"
    proof (cases "k = ?key")
      case True
      have "loopDeposits ls' ?key = (loopDeposits ls ?key)\<lparr>sweptAt := of_nat (block_timestamp E)\<rparr>"
      proof (cases "?key \<in> set ?ks")
        case True
        with ih1 have "loopDeposits ls' ?key = (loopDeposits ls1 ?key)\<lparr>sweptAt := of_nat (block_timestamp E)\<rparr>"
          by blast
        then show ?thesis by (simp add: l1k)
      next
        case False
        with ih2 have "loopDeposits ls' ?key = loopDeposits ls1 ?key" by blast
        then show ?thesis by (simp add: l1k)
      qed
      with True deposit.hyps(5) show ?thesis by simp
    next
      case False
      with k have "k \<in> set ?ks" by simp
      with ih1 have "sweptAt (loopDeposits ls1 k) = 0"
        "loopDeposits ls' k = (loopDeposits ls1 k)\<lparr>sweptAt := of_nat (block_timestamp E)\<rparr>" by blast+
      then show ?thesis by (simp add: l1o[OF False])
    qed
  qed
  have b: "\<forall>k. k \<notin> set (?key # ?ks) \<longrightarrow> loopDeposits ls' k = loopDeposits ls k"
  proof (intro allI impI)
    fix k assume "k \<notin> set (?key # ?ks)"
    then have "k \<noteq> ?key" "k \<notin> set ?ks" by simp_all
    with ih2 l1o show "loopDeposits ls' k = loopDeposits ls k" by simp
  qed
  have d: "(of_nat (block_timestamp E) :: uint32) \<noteq> 0 \<longrightarrow> distinct (?key # ?ks)"
  proof
    assume t: "(of_nat (block_timestamp E) :: uint32) \<noteq> 0"
    have "?key \<notin> set ?ks"
    proof
      assume "?key \<in> set ?ks"
      with ih1 have "sweptAt (loopDeposits ls1 ?key) = 0" by blast
      then have "(of_nat (block_timestamp E) :: uint32) = 0" unfolding l1k by simp
      with t show False by blast
    qed
    with ih3 t show "distinct (?key # ?ks)" by simp
  qed
  show ?case unfolding s by (intro conjI) (rule a, rule b, rule d)
next
  case (previous n ls ls1 ls' h i len)
  have s: "sweptKeysFrom L (loopDeposits ls) vin (inputStartingIndex ls) (Suc n) =
           sweptKeysFrom L (loopDeposits ls) vin (inputStartingIndex ls + len) n"
    using previous.hyps(1,2,4) by (simp add: sweptKeysFrom_step)
  have e: "loopDeposits ls1 = loopDeposits ls" "inputStartingIndex ls1 = inputStartingIndex ls + len"
    using previous.hyps(7) by simp_all
  show ?case using previous.IH unfolding s e .
qed

lemma reduceByFeeShare_Inr_iff:
  "reduceByFeeShare f amts = Inr cs \<longleftrightarrow> (\<forall>a \<in> set amts. f \<le> a) \<and> cs = map (\<lambda>a. a - f) amts"
proof (induction amts arbitrary: cs)
  case Nil
  show ?case by auto
next
  case (Cons a amts)
  show ?case by (auto simp: Inr_iffs Cons.IH)
qed

lemma sweptKeys_From:
  "parseVarInt L vin = Some (len, cnt) \<Longrightarrow> sweptKeys L deps vin = sweptKeysFrom L deps vin (1 + len) cnt"
  by (simp add: sweptKeys_def inputKeys_def inputOutpoints_def sweptKeysFrom_def)

lemma otherInputs_From:
  "parseVarInt L vin = Some (len, cnt) \<Longrightarrow> otherInputs L deps vin = otherInputsFrom L deps vin (1 + len) cnt"
  by (simp add: otherInputs_def inputOutpoints_def otherInputsFrom_def)

lemma length_ks_others:
  "length (sweptKeysFrom L deps vin start n) + length (otherInputsFrom L deps vin start n) =
   length (inputOutpointsFrom L vin start n)"
proof -
  have "length (sweptKeysFrom L deps vin start n) =
        length (filter (\<lambda>op. isRevealed deps (outpointKey L op)) (inputOutpointsFrom L vin start n))"
    by (simp add: sweptKeysFrom_def filter_map comp_def)
  then show ?thesis
    by (simp add: otherInputsFrom_def sum_length_filter_compl)
qed

lemma processSweepTxInputs_unfold:
  assumes "processSweepTxInputs L E deps vin prev = Inr (deps', tot, ds, amts)"
  shows "\<exists>len cnt ls. parseVarInt L vin = Some (len, cnt) \<and>
     (txHash prev \<noteq> 0 \<longrightarrow> 1 \<le> cnt) \<and>
     processSweepTxInputsLoop L E vin prev cnt
               \<lparr>loopDeposits = deps, inputStartingIndex = 1 + len, previousSweepFlag = (txHash prev = 0),
                processedDepositsCount = 0, inputsValue = 0,
                depositors = replicate (if txHash prev = 0 then cnt else cnt - 1) 0,
                depositedAmounts = replicate (if txHash prev = 0 then cnt else cnt - 1) 0\<rparr> = Inr ls \<and>
     previousSweepFlag ls \<and>
     deps' = loopDeposits ls \<and> tot = inputsValue ls \<and> ds = depositors ls \<and> amts = depositedAmounts ls"
proof (cases "txHash prev = 0")
  case True
  with assms show ?thesis
    unfolding processSweepTxInputs_def Let_def
    by (simp add: Inr_iffs split: prod.splits) blast
next
  case False
  with assms show ?thesis
    unfolding processSweepTxInputs_def Let_def
    by (simp add: Inr_iffs split: prod.splits) blast
qed

lemma processSweepTxInputs_Inr:
  assumes ok: "processSweepTxInputs L E deps vin prev = Inr (deps', tot, ds, amts)"
  shows "length amts = length ds"
    and "length (sweptKeys L deps vin) \<le> length ds"
    and "take (length (sweptKeys L deps vin)) ds = map (\<lambda>k. depositor (deps k)) (sweptKeys L deps vin)"
    and "take (length (sweptKeys L deps vin)) amts = map (\<lambda>k. unat (amount (deps k))) (sweptKeys L deps vin)"
    and "txHash prev = 0 \<Longrightarrow> otherInputs L deps vin = []"
    and "txHash prev \<noteq> 0 \<Longrightarrow> \<exists>i. otherInputs L deps vin = [(txHash prev, i)]"
    and "tot = sum_list (map (\<lambda>k. unat (amount (deps k))) (sweptKeys L deps vin)) +
                 length (otherInputs L deps vin) * unat (txOutputValue prev)"
    and "\<forall>k \<in> set (sweptKeys L deps vin). sweptAt (deps k) = 0 \<and>
            deps' k = (deps k)\<lparr>sweptAt := of_nat (block_timestamp E)\<rparr>"
    and "\<forall>k. k \<notin> set (sweptKeys L deps vin) \<longrightarrow> deps' k = deps k"
    and "(of_nat (block_timestamp E) :: uint32) \<noteq> 0 \<Longrightarrow> distinct (sweptKeys L deps vin)"
    and "vinComplete L vin \<Longrightarrow> length (sweptKeys L deps vin) = length ds"
proof -
  from processSweepTxInputs_unfold[OF ok] obtain len cnt ls where
    pv: "parseVarInt L vin = Some (len, cnt)"
    and al: "txHash prev \<noteq> 0 \<longrightarrow> 1 \<le> cnt"
    and lp0: "processSweepTxInputsLoop L E vin prev cnt
               \<lparr>loopDeposits = deps, inputStartingIndex = 1 + len, previousSweepFlag = (txHash prev = 0),
                processedDepositsCount = 0, inputsValue = 0,
                depositors = replicate (if txHash prev = 0 then cnt else cnt - 1) 0,
                depositedAmounts = replicate (if txHash prev = 0 then cnt else cnt - 1) 0\<rparr> = Inr ls"
    and fl: "previousSweepFlag ls"
    and res: "deps' = loopDeposits ls" "tot = inputsValue ls" "ds = depositors ls" "amts = depositedAmounts ls"
    by blast
  define start where "start = 1 + len"
  define n where "n = (if txHash prev = 0 then cnt else cnt - 1)"
  note st = start_def and al = n_def al
  have lp: "processSweepTxInputsLoop L E vin prev cnt
               \<lparr>loopDeposits = deps, inputStartingIndex = start, previousSweepFlag = (txHash prev = 0),
                processedDepositsCount = 0, inputsValue = 0,
                depositors = replicate n 0, depositedAmounts = replicate n 0\<rparr> = Inr ls"
    using lp0 unfolding start_def n_def .
  let ?ls0 = "\<lparr>loopDeposits = deps, inputStartingIndex = start, previousSweepFlag = (txHash prev = 0),
                processedDepositsCount = 0, inputsValue = 0,
                depositors = replicate n 0, depositedAmounts = replicate n (0::nat)\<rparr>"
  let ?ks = "sweptKeysFrom L deps vin start cnt"
  let ?os = "otherInputsFrom L deps vin start cnt"
  have ks: "sweptKeys L deps vin = ?ks" and os: "otherInputs L deps vin = ?os"
    using pv st by (simp_all add: sweptKeys_From otherInputs_From)
  have len: "length ds = n" "length amts = n"
    using loop_lengths[OF lp] res by simp_all
  show "length amts = length ds" using len by simp
  have arr: "processedDepositsCount ls = length ?ks"
    "take (length ?ks) (depositors ls) = map (\<lambda>k. depositor (deps k)) ?ks"
    "take (length ?ks) (depositedAmounts ls) = map (\<lambda>k. unat (amount (deps k))) ?ks"
    "length ?ks \<le> length (depositors ls)"
    using loop_arrays[OF lp] by simp_all
  show "length (sweptKeys L deps vin) \<le> length ds" using arr(4) res ks by simp
  show "take (length (sweptKeys L deps vin)) ds = map (\<lambda>k. depositor (deps k)) (sweptKeys L deps vin)"
    using arr(2) res ks by simp
  show "take (length (sweptKeys L deps vin)) amts = map (\<lambda>k. unat (amount (deps k))) (sweptKeys L deps vin)"
    using arr(3) res ks by simp
  have flg: "previousSweepFlag ls = (txHash prev = 0 \<or> ?os \<noteq> [])"
    "length ?os \<le> (if txHash prev = 0 then 0 else 1)"
    "\<forall>op \<in> set ?os. fst op = txHash prev"
    "inputsValue ls = sum_list (map (\<lambda>k. unat (amount (deps k))) ?ks) + length ?os * unat (txOutputValue prev)"
    using loop_flag[OF lp] by simp_all
  show o0: "txHash prev = 0 \<Longrightarrow> otherInputs L deps vin = []"
    using flg(2) os by simp
  show o1: "\<exists>i. otherInputs L deps vin = [(txHash prev, i)]" if nz: "txHash prev \<noteq> 0"
  proof -
    from fl flg(1) nz have ne: "?os \<noteq> []" by simp
    from flg(2) nz have "length ?os \<le> 1" by simp
    with ne obtain op where e: "?os = [op]"
      by (cases ?os) auto
    with flg(3) have "fst op = txHash prev" by simp
    then have "op = (txHash prev, snd op)" by (cases op) simp
    with e os show ?thesis by metis
  qed
  show "tot = sum_list (map (\<lambda>k. unat (amount (deps k))) (sweptKeys L deps vin)) +
                 length (otherInputs L deps vin) * unat (txOutputValue prev)"
    using flg(4) res ks os by simp
  have sw: "\<forall>k \<in> set ?ks. sweptAt (deps k) = 0 \<and>
            loopDeposits ls k = (deps k)\<lparr>sweptAt := of_nat (block_timestamp E)\<rparr>"
    "\<forall>k. k \<notin> set ?ks \<longrightarrow> loopDeposits ls k = deps k"
    "(of_nat (block_timestamp E) :: uint32) \<noteq> 0 \<longrightarrow> distinct ?ks"
    using loop_swept[OF lp] by simp_all
  show "\<forall>k \<in> set (sweptKeys L deps vin). sweptAt (deps k) = 0 \<and>
            deps' k = (deps k)\<lparr>sweptAt := of_nat (block_timestamp E)\<rparr>"
    using sw(1) unfolding ks res .
  show "\<forall>k. k \<notin> set (sweptKeys L deps vin) \<longrightarrow> deps' k = deps k"
    using sw(2) unfolding ks res .
  show "(of_nat (block_timestamp E) :: uint32) \<noteq> 0 \<Longrightarrow> distinct (sweptKeys L deps vin)"
    using sw(3) unfolding ks by simp
  show "length (sweptKeys L deps vin) = length ds" if vc: "vinComplete L vin"
  proof -
    from vc pv st have "length (inputOutpointsFrom L vin start cnt) = cnt"
      by (simp add: vinComplete_def)
    with length_ks_others[of L deps vin start cnt]
    have sum: "length ?ks + length ?os = cnt" by simp
    show ?thesis
    proof (cases "txHash prev = 0")
      case True
      with o0 os have "?os = []" by simp
      with sum True al len ks show ?thesis by simp
    next
      case False
      with o1 os obtain i where "?os = [(txHash prev, i)]" by auto
      with sum False al len ks show ?thesis by simp
    qed
  qed
qed

lemma sweep_Inr:
  assumes "sweep L E s sweepTx sweepProof prev = Inr (s', ds, credits)"
  shows "\<exists>h w v rp deps' tot amts.
     validateSweepTxProof L E sweepTx sweepProof = Inr h \<and>
     processSweepTxOutput L (outputVector sweepTx) = Inr (w, v) \<and>
     resolvePreviousSweep L (sweeps s w) prev = Inr rp \<and>
     processSweepTxInputs L E (deposits s) (inputVector sweepTx) rp = Inr (deps', tot, ds, amts) \<and>
     unat v \<le> tot \<and> amts \<noteq> [] \<and>
     (\<forall>a \<in> set amts. (tot - unat v) div length amts \<le> a) \<and>
     credits = map (\<lambda>a. a - (tot - unat v) div length amts) amts \<and>
     s' = s\<lparr>deposits := deps', sweeps := (sweeps s)(w := sweepPointer L h v)\<rparr>"
  using assms unfolding sweep_def sweepPointer_def
  by (auto simp: Inr_iffs reduceByFeeShare_Inr_iff split: prod.splits)

subsection \<open>More facts about success and failure\<close>

lemma bindE_Inr [simp]: "bindE (Inr x) f = f x" by (simp add: bindE_def)
lemma bindE_Inl [simp]: "bindE (Inl e) f = Inl e" by (simp add: bindE_def)

lemma reduceByFeeShare_Inl:
  "\<exists>a \<in> set amts. f > a \<Longrightarrow> reduceByFeeShare f amts = Inl PanicArithmetic"
proof (induction amts)
  case Nil
  then show ?case by simp
next
  case (Cons a amts)
  show ?case
  proof (cases "f \<le> a")
    case True
    with Cons.prems have "\<exists>a \<in> set amts. f > a" by auto
    with Cons.IH have "reduceByFeeShare f amts = Inl PanicArithmetic" by blast
    with True show ?thesis by (simp add: checked_sub_def)
  next
    case False
    then show ?thesis by (simp add: checked_sub_def)
  qed
qed

lemma sum_list_reduce:
  "\<forall>a \<in> set xs. f \<le> a \<Longrightarrow> sum_list (map (\<lambda>a. a - f) xs) + length xs * f = sum_list (xs :: nat list)"
  by (induction xs) auto

lemma validateSweepTxProof_Inr:
  "validateSweepTxProof L E tx p = Inr h \<Longrightarrow>
     validateVin L (inputVector tx) = Some True \<and> validateVout L (outputVector tx) = Some True \<and>
     h = txHashOf L tx \<and> checkProofFromTxHash L E (txHashOf L tx) p = Inr ()"
  unfolding validateSweepTxProof_def Let_def
  by (auto simp: Inr_iffs)

lemma resolvePreviousSweep_Inr:
  "resolvePreviousSweep L ptr prev = Inr rp \<Longrightarrow>
     (ptr = 0 \<and> rp = \<lparr>txHash = 0, txOutputValue = 0\<rparr>) \<or>
     (ptr \<noteq> 0 \<and> rp = prev \<and> sweepPointer L (txHash prev) (txOutputValue prev) = ptr)"
  unfolding resolvePreviousSweep_def sweepPointer_def
  by (auto simp: Inr_iffs split: if_splits)


subsection \<open>Evaluation\<close>

lemma bindE_weak_cong: "m = m' \<Longrightarrow> bindE m f = bindE m' f" by simp
lemma libcall_Some: "libcall (Some x) = Inr x" by (simp add: libcall_def)
lemma libcall_None: "libcall None = Inl LibraryRevert" by (simp add: libcall_def)
lemma require_True: "require True e = Inr ()" by (simp add: require_def)
lemma require_False: "require False e = Inl e" by (simp add: require_def)
lemma length_Cons_plus: "length (x # xs) = length xs + 1" by simp

lemma le_bytes_numeral:
  "le_bytes (numeral k) u = of_nat (u mod 256) # le_bytes (pred_numeral k) (u div 256)"
  by (simp only: numeral_eq_Suc le_bytes.simps)
lemma replicate_num: "replicate (numeral k) x = x # replicate (pred_numeral k) x"
  by (simp only: numeral_eq_Suc replicate.simps)
lemma validateItems_numeral:
  "validateItems lengthAt v offset (numeral k) =
     (if offset \<ge> length v then Some False
      else case lengthAt v offset of
             None \<Rightarrow> None
           | Some nextLen \<Rightarrow>
               if nextLen = ERR_BAD_ARG then Some False
               else validateItems lengthAt v (offset + nextLen) (pred_numeral k))"
  by (simp only: numeral_eq_Suc validateItems.simps)
lemma outputOffset_numeral:
  "outputOffset vout offset (numeral k) =
     (case determineOutputLengthAt vout offset of
        None \<Rightarrow> None
      | Some len \<Rightarrow> if len = ERR_BAD_ARG then None else outputOffset vout (offset + len) (pred_numeral k))"
  by (simp only: numeral_eq_Suc outputOffset.simps)
lemma headerChainFrom_numeral:
  "headerChainFrom headers start digest totalDifficulty (numeral k) =
     (if start \<noteq> 0 \<and> slice headers (start + 4) 32 \<noteq> Some (be_bytes 32 digest) then Some ERR_INVALID_CHAIN
      else case extractTargetAt headers start of
             None \<Rightarrow> None
           | Some target \<Rightarrow>
               let digest' = ref_hash256 (take 80 (drop start headers)) in
               if unat (reverseUint256 digest') > target then Some ERR_LOW_WORK
               else (case ref_calculateDifficulty target of
                       None \<Rightarrow> None
                     | Some d \<Rightarrow> headerChainFrom headers (start + 80) digest' (totalDifficulty + d) (pred_numeral k)))"
  by (simp only: numeral_eq_Suc headerChainFrom.simps)
lemma chunks32_numeral:
  "chunks32 (numeral k) b = take 32 b # chunks32 (pred_numeral k) (drop 32 b)"
  by (simp only: numeral_eq_Suc chunks32.simps)
lemma processSweepTxInputsLoop_numeral:
  "processSweepTxInputsLoop L E v p (numeral k) ls =
     (if inputStartingIndex ls \<ge> length v then Inr ls
      else bindE (processSweepTxInput L E v p ls) (processSweepTxInputsLoop L E v p (pred_numeral k)))"
  by (simp only: numeral_eq_Suc processSweepTxInputsLoop.simps)
lemma inputOutpointsFrom_numeral:
  "inputOutpointsFrom L vin start (numeral k) =
     (if start \<ge> length vin then []
      else case parseTxInputAt L vin start of
             Inl _ \<Rightarrow> []
           | Inr (h, i, len) \<Rightarrow> (h, i) # inputOutpointsFrom L vin (start + len) (pred_numeral k))"
  by (simp only: numeral_eq_Suc inputOutpointsFrom.simps)

lemmas eval_simps = libcall_Some libcall_None require_True require_False length_Cons_plus
  le_bytes_numeral replicate_num validateItems_numeral outputOffset_numeral headerChainFrom_numeral
  chunks32_numeral processSweepTxInputsLoop_numeral inputOutpointsFrom_numeral

lemmas ref_defs = ref_lib_def ref_keccak256_def ref_hash256_def ref_hash160_def ref_toBytes32_def
  determineVarIntDataLength_def parseVarIntAt_def ref_parseVarInt_def ref_determineInputLengthAt_def
  determineOutputLengthAt_def validateVector_def ref_validateVin_def ref_validateVout_def
  ref_extractOutputAtIndex_def ref_extractHash_def ref_reverseUint32_def ref_reverseUint64_def
  reverseUint256_def ref_extractValue_def ref_extractInputTxIdLeAt_def ref_extractTxIndexLeAt_def
  ERR_BAD_ARG_def ERR_BAD_LENGTH_def ERR_INVALID_CHAIN_def ERR_LOW_WORK_def DIFF1_TARGET_def
  ref_extractMerkleRootLE_def extractTargetAt_def ref_extractTarget_def ref_calculateDifficulty_def
  ref_prove_def ref_validateHeaderChain_def le_nat_def be_nat_def slice_def
  be_bytes_def mload_bytes_def word_rcat_def

lemmas data_defs = mkInput_def p2wpkhOutput_def p2shOutput_def mkTx_def mkHeader_def mkProof_def
  env0_def wallet0_def noPreviousSweep_def noDeposit_def previousSweep2_def
  bridge1_def bridge2_def bridge3_def sweepTx1_def sweepTx1_p2sh_def sweepTx2_def
  sweepTx2_foreign_def sweepTx2_deposits_def sweepTx2_alone_def sweepTx3_def
  bridge1_swept_def reveal1_def fundingTx1_def emptyBridge_def expectedScript_def

lemmas model_defs = txHashOf_def depositKey_def sweepPointer_def checkFundingOutputHash_def revealDeposit_def
  evaluateProofDifficulty_def checkProofFromTxHash_def validateSweepTxProof_def
  processSweepTxOutput_def parseTxInputAt_def processSweepTxInput_def processSweepTxInputs_def
  resolvePreviousSweep_def sweep_def checked_add_def checked_sub_def checked_mul_def checked_div_def
  creditsOf_def Let_def

lemma proof1: "validateSweepTxProof ref_lib env0 sweepTx1 (mkProof sweepTx1) = Inr (txHashOf ref_lib sweepTx1)"
  by (simp add: eval_simps ref_defs data_defs model_defs del: length_Cons list.size(4)
      cong: bindE_weak_cong let_weak_cong option.case_cong_weak sum.case_cong_weak prod.case_cong_weak)

lemma output1: "processSweepTxOutput ref_lib (outputVector sweepTx1) = Inr (wallet0, 35399)"
  by (simp add: eval_simps ref_defs data_defs model_defs del: length_Cons list.size(4)
      cong: bindE_weak_cong let_weak_cong option.case_cong_weak sum.case_cong_weak prod.case_cong_weak)

lemma inputs1:
  "\<exists>deps'. processSweepTxInputs ref_lib env0 (deposits bridge1) (inputVector sweepTx1) \<lparr>txHash = 0, txOutputValue = 0\<rparr>
     = Inr (deps', 37000, [0xD1, 0xD2], [25000, 12000])"
  by (simp add: eval_simps ref_defs data_defs model_defs del: length_Cons list.size(4)
      cong: bindE_weak_cong let_weak_cong option.case_cong_weak sum.case_cong_weak prod.case_cong_weak)

lemma sweep1:
  "\<exists>s'. sweep ref_lib env0 bridge1 sweepTx1 (mkProof sweepTx1) noPreviousSweep = Inr (s', [0xD1, 0xD2], [24200, 11200])"
proof -
  from inputs1 obtain deps' where
    i: "processSweepTxInputs ref_lib env0 (deposits bridge1) (inputVector sweepTx1) \<lparr>txHash = 0, txOutputValue = 0\<rparr>
     = Inr (deps', 37000, [0xD1, 0xD2], [25000, 12000])" by blast
  have r: "resolvePreviousSweep ref_lib (sweeps bridge1 wallet0) noPreviousSweep = Inr \<lparr>txHash = 0, txOutputValue = 0\<rparr>"
    by (simp add: resolvePreviousSweep_def bridge1_def)
  show ?thesis
    unfolding sweep_def
    by (simp add: proof1 output1 r i checked_sub_def checked_div_def flip: numeral_2_eq_2)
qed

lemma vinComplete1: "vinComplete ref_lib (inputVector sweepTx1)"
  by (simp add: vinComplete_def eval_simps ref_defs data_defs model_defs del: length_Cons list.size(4)
      cong: bindE_weak_cong let_weak_cong option.case_cong_weak sum.case_cong_weak prod.case_cong_weak)

lemma proof3: "validateSweepTxProof ref_lib env0 sweepTx3 (mkProof sweepTx3) = Inr (txHashOf ref_lib sweepTx3)"
  by (simp add: eval_simps ref_defs data_defs model_defs del: length_Cons list.size(4)
      cong: bindE_weak_cong let_weak_cong option.case_cong_weak sum.case_cong_weak prod.case_cong_weak)

lemma output3: "processSweepTxOutput ref_lib (outputVector sweepTx3) = Inr (wallet0, 10)"
  by (simp add: eval_simps ref_defs data_defs model_defs del: length_Cons list.size(4)
      cong: bindE_weak_cong let_weak_cong option.case_cong_weak sum.case_cong_weak prod.case_cong_weak)

lemma inputs3:
  "\<exists>deps'. processSweepTxInputs ref_lib env0 (deposits bridge3) (inputVector sweepTx3) \<lparr>txHash = 0, txOutputValue = 0\<rparr>
     = Inr (deps', 40010, [0xD5, 0xD6], [10, 40000])"
  by (simp add: eval_simps ref_defs data_defs model_defs del: length_Cons list.size(4)
      cong: bindE_weak_cong let_weak_cong option.case_cong_weak sum.case_cong_weak prod.case_cong_weak)

lemma resolve3:
  "resolvePreviousSweep ref_lib (sweeps bridge3 wallet0) noPreviousSweep = Inr \<lparr>txHash = 0, txOutputValue = 0\<rparr>"
  by (simp add: resolvePreviousSweep_def bridge3_def)

lemma sweep3: "sweep ref_lib env0 bridge3 sweepTx3 (mkProof sweepTx3) noPreviousSweep = Inl PanicArithmetic"
proof -
  from inputs3 obtain deps' where
    i: "processSweepTxInputs ref_lib env0 (deposits bridge3) (inputVector sweepTx3) \<lparr>txHash = 0, txOutputValue = 0\<rparr>
     = Inr (deps', 40010, [0xD5, 0xD6], [10, 40000])" by blast
  show ?thesis
    unfolding sweep_def
    by (simp add: proof3 output3 resolve3 i checked_sub_def checked_div_def flip: numeral_2_eq_2)
qed

lemma proof2: "validateSweepTxProof ref_lib env0 sweepTx2 (mkProof sweepTx2) = Inr (txHashOf ref_lib sweepTx2)"
  by (simp add: eval_simps ref_defs data_defs model_defs del: length_Cons list.size(4)
      cong: bindE_weak_cong let_weak_cong option.case_cong_weak sum.case_cong_weak prod.case_cong_weak)

lemma output2: "processSweepTxOutput ref_lib (outputVector sweepTx2) = Inr (wallet0, 60800)"
  by (simp add: eval_simps ref_defs data_defs model_defs del: length_Cons list.size(4)
      cong: bindE_weak_cong let_weak_cong option.case_cong_weak sum.case_cong_weak prod.case_cong_weak)

lemma resolve2:
  "resolvePreviousSweep ref_lib (sweeps bridge2 wallet0) previousSweep2 = Inr previousSweep2"
  by (simp add: eval_simps ref_defs data_defs model_defs del: length_Cons list.size(4)
      cong: bindE_weak_cong let_weak_cong option.case_cong_weak sum.case_cong_weak prod.case_cong_weak)

lemma inputs2:
  "\<exists>deps'. processSweepTxInputs ref_lib env0 (deposits bridge2) (inputVector sweepTx2) previousSweep2
     = Inr (deps', 62400, [0xD3, 0xD4], [17000, 10000])"
  by (simp add: eval_simps ref_defs data_defs model_defs del: length_Cons list.size(4)
      cong: bindE_weak_cong let_weak_cong option.case_cong_weak sum.case_cong_weak prod.case_cong_weak)

lemma sweep2: "\<exists>s'. sweep ref_lib env0 bridge2 sweepTx2 (mkProof sweepTx2) previousSweep2 = Inr (s', [0xD3, 0xD4], [16200, 9200])"
proof -
  from inputs2 obtain deps' where
    i: "processSweepTxInputs ref_lib env0 (deposits bridge2) (inputVector sweepTx2) previousSweep2
     = Inr (deps', 62400, [0xD3, 0xD4], [17000, 10000])" by blast
  show ?thesis
    unfolding sweep_def
    by (simp add: proof2 output2 resolve2 i checked_sub_def checked_div_def flip: numeral_2_eq_2)
qed

lemma outpoints2: "inputOutpoints ref_lib (inputVector sweepTx2) = [(0xB0, 7), (0xA3, 0), (0xA4, 0)]"
  by (simp add: inputOutpoints_def eval_simps ref_defs data_defs model_defs del: length_Cons list.size(4)
      cong: bindE_weak_cong let_weak_cong option.case_cong_weak sum.case_cong_weak prod.case_cong_weak)

lemma proof2f: "validateSweepTxProof ref_lib env0 sweepTx2_foreign (mkProof sweepTx2_foreign) = Inr (txHashOf ref_lib sweepTx2_foreign)"
  by (simp add: eval_simps ref_defs data_defs model_defs del: length_Cons list.size(4)
      cong: bindE_weak_cong let_weak_cong option.case_cong_weak sum.case_cong_weak prod.case_cong_weak)

lemma output2f: "processSweepTxOutput ref_lib (outputVector sweepTx2_foreign) = Inr (wallet0, 16000)"
  by (simp add: eval_simps ref_defs data_defs model_defs del: length_Cons list.size(4)
      cong: bindE_weak_cong let_weak_cong option.case_cong_weak sum.case_cong_weak prod.case_cong_weak)

lemma inputs2f:
  "processSweepTxInputs ref_lib env0 (deposits bridge2) (inputVector sweepTx2_foreign) previousSweep2
     = Inl UnknownInputOrigin"
  by (simp add: eval_simps ref_defs data_defs model_defs del: length_Cons list.size(4)
      cong: bindE_weak_cong let_weak_cong option.case_cong_weak sum.case_cong_weak prod.case_cong_weak)

lemma inputs2d:
  "processSweepTxInputs ref_lib env0 (deposits bridge2) (inputVector sweepTx2_deposits) previousSweep2
     = Inl PanicIndexOutOfBounds"
  by (simp add: eval_simps ref_defs data_defs model_defs del: length_Cons list.size(4)
      cong: bindE_weak_cong let_weak_cong option.case_cong_weak sum.case_cong_weak prod.case_cong_weak)

lemma proof2a: "validateSweepTxProof ref_lib env0 sweepTx2_alone (mkProof sweepTx2_alone) = Inr (txHashOf ref_lib sweepTx2_alone)"
  by (simp add: eval_simps ref_defs data_defs model_defs del: length_Cons list.size(4)
      cong: bindE_weak_cong let_weak_cong option.case_cong_weak sum.case_cong_weak prod.case_cong_weak)

lemma output2a: "processSweepTxOutput ref_lib (outputVector sweepTx2_alone) = Inr (wallet0, 35000)"
  by (simp add: eval_simps ref_defs data_defs model_defs del: length_Cons list.size(4)
      cong: bindE_weak_cong let_weak_cong option.case_cong_weak sum.case_cong_weak prod.case_cong_weak)

lemma inputs2a:
  "processSweepTxInputs ref_lib env0 (deposits bridge2) (inputVector sweepTx2_alone) previousSweep2
     = Inr (deposits bridge2, 35400, [], [])"
  by (simp add: eval_simps ref_defs data_defs model_defs del: length_Cons list.size(4)
      cong: bindE_weak_cong let_weak_cong option.case_cong_weak sum.case_cong_weak prod.case_cong_weak)

lemma proof1p: "validateSweepTxProof ref_lib env0 sweepTx1_p2sh (mkProof sweepTx1_p2sh) = Inr (txHashOf ref_lib sweepTx1_p2sh)"
  by (simp add: eval_simps ref_defs data_defs model_defs del: length_Cons list.size(4)
      cong: bindE_weak_cong let_weak_cong option.case_cong_weak sum.case_cong_weak prod.case_cong_weak)

lemma output1p: "processSweepTxOutput ref_lib (outputVector sweepTx1_p2sh) = Inr (wallet0, 35399)"
  by (simp add: eval_simps ref_defs data_defs model_defs del: length_Cons list.size(4)
      cong: bindE_weak_cong let_weak_cong option.case_cong_weak sum.case_cong_weak prod.case_cong_weak)

section \<open>Claims\<close>

text \<open>
  C1. Every sweep that \<open>sweep\<close> accepts credits at least one deposit. Its fee is the sum
  of the swept deposits' registered amounts, plus the value of the previous sweep's
  output when the wallet has one, minus the value of the single output; the fee share
  is the fee divided by the number \<open>N\<close> of swept deposits, rounded down; every credit
  is the deposit's registered amount minus the share; and the remainder \<open>fee mod N\<close> is
  charged to nobody: the credits fall short of the amounts by \<open>fee - fee mod N\<close> only.
  The library is assumed to keep what \<open>validateVin\<close> promises (\<open>vinComplete\<close>).
\<close>

theorem sweep_fee_allocation:
  assumes ok: "sweep L E s sweepTx sweepProof previousSweep = Inr (s', ds, credits)"
    and complete: "validateVin L (inputVector sweepTx) = Some True \<Longrightarrow> vinComplete L (inputVector sweepTx)"
  shows "\<exists>w v. processSweepTxOutput L (outputVector sweepTx) = Inr (w, v) \<and>
     (let keys = sweptKeys L (deposits s) (inputVector sweepTx);
          amounts = map (\<lambda>k. unat (amount (deposits s k))) keys;
          N = length keys;
          previousValue = (if sweeps s w \<noteq> 0 \<and> txHash previousSweep \<noteq> 0
                           then unat (txOutputValue previousSweep) else 0);
          fee = sum_list amounts + previousValue - unat v;
          feeShare = fee div N
      in 1 \<le> N \<and> unat v \<le> sum_list amounts + previousValue \<and>
         ds = map (\<lambda>k. depositor (deposits s k)) keys \<and>
         credits = map (\<lambda>a. a - feeShare) amounts \<and>
         (\<forall>a \<in> set amounts. feeShare \<le> a) \<and>
         sum_list credits + (fee - fee mod N) = sum_list amounts)"
proof -
  let ?vin = "inputVector sweepTx"
  from sweep_Inr[OF ok] obtain h w v rp deps' tot amts where
    vp: "validateSweepTxProof L E sweepTx sweepProof = Inr h"
    and out: "processSweepTxOutput L (outputVector sweepTx) = Inr (w, v)"
    and rs: "resolvePreviousSweep L (sweeps s w) previousSweep = Inr rp"
    and inp: "processSweepTxInputs L E (deposits s) ?vin rp = Inr (deps', tot, ds, amts)"
    and le: "unat v \<le> tot" and ne: "amts \<noteq> []"
    and sh: "\<forall>a \<in> set amts. (tot - unat v) div length amts \<le> a"
    and cr: "credits = map (\<lambda>a. a - (tot - unat v) div length amts) amts"
    by blast
  let ?keys = "sweptKeys L (deposits s) ?vin"
  let ?amounts = "map (\<lambda>k. unat (amount (deposits s k))) ?keys"
  let ?pv = "if sweeps s w \<noteq> 0 \<and> txHash previousSweep \<noteq> 0 then unat (txOutputValue previousSweep) else 0"
  from validateSweepTxProof_Inr[OF vp] complete have vc: "vinComplete L ?vin" by blast
  note I = processSweepTxInputs_Inr[OF inp]
  have len: "length ?keys = length ds" "length amts = length ds"
    using I(11)[OF vc] I(1) by simp_all
  have dsEq: "ds = map (\<lambda>k. depositor (deposits s k)) ?keys"
    using I(3) len by simp
  have amEq: "amts = ?amounts"
    using I(4) len by simp
  have totEq: "tot = sum_list ?amounts + ?pv"
  proof (cases "txHash rp = 0")
    case True
    with I(5) have "otherInputs L (deposits s) ?vin = []" by simp
    moreover from True resolvePreviousSweep_Inr[OF rs] have "?pv = 0" by auto
    ultimately show ?thesis using I(7) by simp
  next
    case False
    with I(6) obtain i where "otherInputs L (deposits s) ?vin = [(txHash rp, i)]" by blast
    moreover from False resolvePreviousSweep_Inr[OF rs]
    have "rp = previousSweep" "sweeps s w \<noteq> 0" by auto
    ultimately show ?thesis using I(7) False by simp
  qed
  have N: "length amts = length ?keys" using len by simp
  define fee where "fee = sum_list ?amounts + ?pv - unat v"
  define feeShare where "feeShare = fee div length ?keys"
  have fs: "(tot - unat v) div length amts = feeShare"
    by (simp add: feeShare_def fee_def totEq N)
  have c1: "1 \<le> length ?keys" using ne N by (cases amts) auto
  have c2: "unat v \<le> sum_list ?amounts + ?pv" using le totEq by simp
  have c4: "credits = map (\<lambda>a. a - feeShare) ?amounts" using cr fs amEq by simp
  have c5: "\<forall>a \<in> set ?amounts. feeShare \<le> a" using sh fs amEq by simp
  have "sum_list credits + length ?amounts * feeShare = sum_list ?amounts"
    unfolding c4 using c5 by (rule sum_list_reduce)
  moreover have "length ?amounts * feeShare = fee - fee mod length ?keys"
    by (simp add: feeShare_def minus_mod_eq_mult_div)
  ultimately have c6: "sum_list credits + (fee - fee mod length ?keys) = sum_list ?amounts" by simp
  show ?thesis
    using out c1 c2 dsEq c4 c5 c6
    unfolding Let_def fee_def feeShare_def by blast
qed


theorem sweep_fee_allocation_witness:
  "\<exists>s' ds credits.
     sweep ref_lib env0 bridge1 sweepTx1 (mkProof sweepTx1) noPreviousSweep = Inr (s', ds, credits) \<and>
     vinComplete ref_lib (inputVector sweepTx1) \<and>
     credits = [24200, 11200] \<and>
     (\<exists>w v. processSweepTxOutput ref_lib (outputVector sweepTx1) = Inr (w, v) \<and>
     (let keys = sweptKeys ref_lib (deposits bridge1) (inputVector sweepTx1);
          amounts = map (\<lambda>k. unat (amount (deposits bridge1 k))) keys;
          N = length keys;
          previousValue = (if sweeps bridge1 w \<noteq> 0 \<and> txHash noPreviousSweep \<noteq> 0
                           then unat (txOutputValue noPreviousSweep) else 0);
          fee = sum_list amounts + previousValue - unat v;
          feeShare = fee div N
      in 1 \<le> N \<and> unat v \<le> sum_list amounts + previousValue \<and>
         ds = map (\<lambda>k. depositor (deposits bridge1 k)) keys \<and>
         credits = map (\<lambda>a. a - feeShare) amounts \<and>
         (\<forall>a \<in> set amounts. feeShare \<le> a) \<and>
         sum_list credits + (fee - fee mod N) = sum_list amounts))"
proof -
  from sweep1 obtain s' where
    ok: "sweep ref_lib env0 bridge1 sweepTx1 (mkProof sweepTx1) noPreviousSweep = Inr (s', [0xD1, 0xD2], [24200, 11200])"
    by blast
  from sweep_fee_allocation[OF ok vinComplete1] ok vinComplete1 show ?thesis by blast
qed

text \<open>
  C7 (as amended). \<open>sweep\<close> has no \<open>require\<close> that compares the fee share with a
  deposit's amount, but the subtraction \<open>depositedAmounts[i] -= feeShare\<close> is checked:
  when the share exceeds the amount of a credited deposit, the sweep reverts with an
  arithmetic panic and nothing is credited; otherwise it succeeds with the credits
  \<open>amount - feeShare\<close>.
\<close>

theorem feeShare_checked:
  assumes vp: "validateSweepTxProof L E sweepTx sweepProof = Inr h"
    and out: "processSweepTxOutput L (outputVector sweepTx) = Inr (w, v)"
    and rs: "resolvePreviousSweep L (sweeps s w) previousSweep = Inr rp"
    and inp: "processSweepTxInputs L E (deposits s) (inputVector sweepTx) rp = Inr (deps', tot, ds, amts)"
    and le: "unat v \<le> tot" and ne: "amts \<noteq> []"
  shows "((\<exists>a \<in> set amts. (tot - unat v) div length amts > a) \<longrightarrow>
            sweep L E s sweepTx sweepProof previousSweep = Inl PanicArithmetic) \<and>
         ((\<forall>a \<in> set amts. (tot - unat v) div length amts \<le> a) \<longrightarrow>
            sweep L E s sweepTx sweepProof previousSweep =
              Inr (s\<lparr>deposits := deps', sweeps := (sweeps s)(w := sweepPointer L h v)\<rparr>, ds,
                   map (\<lambda>a. a - (tot - unat v) div length amts) amts))"
proof (intro conjI impI)
  assume "\<exists>a \<in> set amts. (tot - unat v) div length amts > a"
  then have "reduceByFeeShare ((tot - unat v) div length amts) amts = Inl PanicArithmetic"
    by (rule reduceByFeeShare_Inl)
  then show "sweep L E s sweepTx sweepProof previousSweep = Inl PanicArithmetic"
    unfolding sweep_def using vp out rs inp le ne
    by (simp add: checked_sub_def checked_div_def)
next
  assume "\<forall>a \<in> set amts. (tot - unat v) div length amts \<le> a"
  then have "reduceByFeeShare ((tot - unat v) div length amts) amts =
             Inr (map (\<lambda>a. a - (tot - unat v) div length amts) amts)"
    by (simp add: reduceByFeeShare_Inr_iff)
  then show "sweep L E s sweepTx sweepProof previousSweep =
              Inr (s\<lparr>deposits := deps', sweeps := (sweeps s)(w := sweepPointer L h v)\<rparr>, ds,
                   map (\<lambda>a. a - (tot - unat v) div length amts) amts)"
    unfolding sweep_def sweepPointer_def using vp out rs inp le ne
    by (simp add: checked_sub_def checked_div_def)
qed


text \<open>
  C10. A sweep that succeeds has a non-empty credit list, and (when the library keeps
  what \<open>validateVin\<close> promises) at least one of its inputs is a revealed deposit. When
  the credited-deposit list is empty, the call fails: with a division by zero in the
  fee share, or before it, when the output exceeds the inputs.
\<close>

theorem no_sweep_without_deposit:
  "(sweep L E s sweepTx sweepProof previousSweep = Inr (s', ds, credits) \<longrightarrow>
      credits \<noteq> [] \<and> ds \<noteq> [] \<and>
      ((validateVin L (inputVector sweepTx) = Some True \<longrightarrow> vinComplete L (inputVector sweepTx)) \<longrightarrow>
         sweptKeys L (deposits s) (inputVector sweepTx) \<noteq> [])) \<and>
   (validateSweepTxProof L E sweepTx sweepProof = Inr h \<and>
    processSweepTxOutput L (outputVector sweepTx) = Inr (w, v) \<and>
    resolvePreviousSweep L (sweeps s w) previousSweep = Inr rp \<and>
    processSweepTxInputs L E (deposits s) (inputVector sweepTx) rp = Inr (deps', tot, [], []) \<longrightarrow>
      sweep L E s sweepTx sweepProof previousSweep =
        Inl (if unat v \<le> tot then PanicDivisionByZero else PanicArithmetic))"
proof (intro conjI impI)
  assume ok: "sweep L E s sweepTx sweepProof previousSweep = Inr (s', ds, credits)"
  from sweep_Inr[OF ok] obtain h1 w1 v1 rp1 deps1 tot1 amts where
    vp: "validateSweepTxProof L E sweepTx sweepProof = Inr h1"
    and "processSweepTxOutput L (outputVector sweepTx) = Inr (w1, v1)"
    and "resolvePreviousSweep L (sweeps s w1) previousSweep = Inr rp1"
    and inp: "processSweepTxInputs L E (deposits s) (inputVector sweepTx) rp1 = Inr (deps1, tot1, ds, amts)"
    and "unat v1 \<le> tot1" and ne: "amts \<noteq> []"
    and "\<forall>a \<in> set amts. (tot1 - unat v1) div length amts \<le> a"
    and cr: "credits = map (\<lambda>a. a - (tot1 - unat v1) div length amts) amts"
    by blast
  note I = processSweepTxInputs_Inr[OF inp]
  show "credits \<noteq> []" using cr ne by simp
  show "ds \<noteq> []" using I(1) ne by auto
  assume c: "validateVin L (inputVector sweepTx) = Some True \<longrightarrow> vinComplete L (inputVector sweepTx)"
  with validateSweepTxProof_Inr[OF vp] have "vinComplete L (inputVector sweepTx)" by blast
  from I(11)[OF this] I(1) ne show "sweptKeys L (deposits s) (inputVector sweepTx) \<noteq> []" by auto
next
  assume a: "validateSweepTxProof L E sweepTx sweepProof = Inr h \<and>
    processSweepTxOutput L (outputVector sweepTx) = Inr (w, v) \<and>
    resolvePreviousSweep L (sweeps s w) previousSweep = Inr rp \<and>
    processSweepTxInputs L E (deposits s) (inputVector sweepTx) rp = Inr (deps', tot, [], [])"
  then show "sweep L E s sweepTx sweepProof previousSweep =
        Inl (if unat v \<le> tot then PanicDivisionByZero else PanicArithmetic)"
    unfolding sweep_def by (simp add: checked_sub_def checked_div_def)
qed

end
